theory Spec2Isabelle
  imports Main "HOL-Library.Sublist"
begin

section \<open>Clearance stock update: the transform of \<^verbatim>\<open>update_clearance.py\<close>\<close>

text \<open>
  The script reads one tab of a spreadsheet as CSV text, turns the rows under the
  header row into product records and writes them out as one document. This theory
  embeds the functions \<^verbatim>\<open>map_category\<close>, \<^verbatim>\<open>parse_int\<close>,
  \<^verbatim>\<open>parse_clearance_csv\<close> and \<^verbatim>\<open>main\<close>, together with the parts of the
  Python library they call (\<^verbatim>\<open>str.strip\<close>, \<^verbatim>\<open>str.lower\<close>, \<^verbatim>\<open>int\<close>,
  \<^verbatim>\<open>str\<close> on integers, \<^verbatim>\<open>re.sub\<close> with the class \<^verbatim>\<open>[,\s]\<close> and
  \<^verbatim>\<open>csv.reader\<close> with the default dialect), as CPython 3.11 behaves.

  A Python string is modelled as a \<^typ>\<open>string\<close>; a \<^typ>\<open>char\<close> stands for the code
  point of the same number, so the model covers the strings whose code points are below
  256. An exception is a value: a function that can raise returns \<open>py_error + 'a\<close>.
\<close>

subsection \<open>Exceptions\<close>

datatype py_error = ValueError | IndexError | CsvError

definition bindE :: "py_error + 'a \<Rightarrow> ('a \<Rightarrow> py_error + 'b) \<Rightarrow> py_error + 'b" where
  "bindE m f = (case m of Inl e \<Rightarrow> Inl e | Inr x \<Rightarrow> f x)"

text \<open>\<^verbatim>\<open>xs[i]\<close> for a literal index \<open>i \<ge> 0\<close>: IndexError out of range.\<close>

definition py_index :: "'a list \<Rightarrow> nat \<Rightarrow> py_error + 'a" where
  "py_index xs i = (if i < length xs then Inr (xs ! i) else Inl IndexError)"

subsection \<open>String operations of the Python library\<close>

text \<open>
  \<^verbatim>\<open>str.isspace\<close>, the class \<^verbatim>\<open>\s\<close> of \<^verbatim>\<open>re\<close> and \<^verbatim>\<open>str.strip()\<close> share one
  set of whitespace characters: below 256 these are the code points 9 to 13, 28 to 32,
  133 and 160.
\<close>

definition py_isspace :: "char \<Rightarrow> bool" where
  "py_isspace c =
     (let n = (of_char c :: nat)
      in (9 \<le> n \<and> n \<le> 13) \<or> (28 \<le> n \<and> n \<le> 32) \<or> n = 133 \<or> n = 160)"

definition py_strip :: "string \<Rightarrow> string" where
  "py_strip s = rev (dropWhile py_isspace (rev (dropWhile py_isspace s)))"

text \<open>\<^verbatim>\<open>str.lower\<close>: A to Z, and the capital letters 192 to 222 other than 215.\<close>

definition lower_char :: "char \<Rightarrow> char" where
  "lower_char c =
     (let n = (of_char c :: nat)
      in if (65 \<le> n \<and> n \<le> 90) \<or> (192 \<le> n \<and> n \<le> 222 \<and> n \<noteq> 215)
         then char_of (n + 32) else c)"

definition py_lower :: "string \<Rightarrow> string" where
  "py_lower s = map lower_char s"

text \<open>\<^verbatim>\<open>a in b\<close> on strings: \<open>a\<close> occurs in \<open>b\<close> as a contiguous run.\<close>

definition py_in :: "string \<Rightarrow> string \<Rightarrow> bool" where
  "py_in a b = sublist a b"

text \<open>\<^verbatim>\<open>s.replace('\n', ' ')\<close>: every line feed becomes one space.\<close>

definition replace_newline :: "string \<Rightarrow> string" where
  "replace_newline s = map (\<lambda>c. if c = CHR 0x0A then CHR '' '' else c) s"

text \<open>\<^verbatim>\<open>re.sub(r'[,\s]', '', s)\<close>: every comma and every whitespace character is removed.\<close>

definition re_sub_comma_space :: "string \<Rightarrow> string" where
  "re_sub_comma_space s = filter (\<lambda>c. \<not> (c = CHR '','' \<or> py_isspace c)) s"

subsection \<open>\<^verbatim>\<open>int(s)\<close> and \<^verbatim>\<open>str(n)\<close>\<close>

text \<open>
  \<^verbatim>\<open>int(s)\<close> in base 10 drops the whitespace around the text (the code points 9 to
  13, 32, 133 and 160), reads an optional sign and then digits, where one underscore may
  stand between two digits. Anything else is a ValueError, and so is a text of more than
  4300 digits (the default \<^verbatim>\<open>sys.int_info.default_max_str_digits\<close>). \<^verbatim>\<open>str(n)\<close>
  raises ValueError in the same way when \<open>n\<close> has more than 4300 digits.
\<close>

definition max_str_digits :: nat where
  "max_str_digits = 4300"

definition int_isspace :: "char \<Rightarrow> bool" where
  "int_isspace c =
     (let n = (of_char c :: nat)
      in (9 \<le> n \<and> n \<le> 13) \<or> n = 32 \<or> n = 133 \<or> n = 160)"

definition is_digit :: "char \<Rightarrow> bool" where
  "is_digit c = (let n = (of_char c :: nat) in 48 \<le> n \<and> n \<le> 57)"

definition digit_val :: "char \<Rightarrow> nat" where
  "digit_val c = of_char c - 48"

definition digit_char :: "nat \<Rightarrow> char" where
  "digit_char d = char_of (48 + d)"

text \<open>The digits after the first one: a digit, or an underscore and a digit, repeated.\<close>

fun more_digits :: "string \<Rightarrow> nat list option" where
  "more_digits [] = Some []"
| "more_digits [c] = (if is_digit c then Some [digit_val c] else None)"
| "more_digits (c # d # cs) =
     (if is_digit c then map_option (Cons (digit_val c)) (more_digits (d # cs))
      else if c = CHR ''_'' \<and> is_digit d then map_option (Cons (digit_val d)) (more_digits cs)
      else None)"

definition digit_part :: "string \<Rightarrow> nat list option" where
  "digit_part s =
     (case s of [] \<Rightarrow> None
      | c # cs \<Rightarrow> if is_digit c then map_option (Cons (digit_val c)) (more_digits cs) else None)"

definition dec_value :: "nat list \<Rightarrow> nat" where
  "dec_value ds = foldl (\<lambda>a d. 10 * a + d) 0 ds"

definition py_int :: "string \<Rightarrow> py_error + int" where
  "py_int s =
     (let t = rev (dropWhile int_isspace (rev (dropWhile int_isspace s)));
          neg = (case t of [] \<Rightarrow> False | c # _ \<Rightarrow> c = CHR ''-'');
          body = (case t of [] \<Rightarrow> []
                  | c # cs \<Rightarrow> if c = CHR ''+'' \<or> c = CHR ''-'' then cs else t)
      in case digit_part body of
           None \<Rightarrow> Inl ValueError
         | Some ds \<Rightarrow>
             if length ds > max_str_digits then Inl ValueError
             else Inr (if neg then - int (dec_value ds) else int (dec_value ds)))"

fun digits_of :: "nat \<Rightarrow> string" where
  "digits_of n =
     (if n < 10 then [digit_char n] else digits_of (n div 10) @ [digit_char (n mod 10)])"

declare digits_of.simps [simp del]

definition py_str :: "int \<Rightarrow> py_error + string" where
  "py_str n =
     (let ds = digits_of (nat \<bar>n\<bar>)
      in if length ds > max_str_digits then Inl ValueError
         else Inr (if n < 0 then CHR ''-'' # ds else ds))"

subsection \<open>\<^verbatim>\<open>CATEGORY_MAP\<close> and \<^verbatim>\<open>map_category\<close>\<close>

text \<open>
  A Python dict iterates in insertion order and the keys of the literal are distinct,
  so the mapping is the list of its pairs in the order of the source.
\<close>

definition CATEGORY_MAP :: "(string \<times> string) list" where
  "CATEGORY_MAP =
     [(''Area Light'', ''Area Light''),
      (''AL2'', ''Area Light''),
      (''AL2N'', ''Area Light''),
      (''Twin Lens High Bay'', ''Linear High Bay''),
      (''Limited Stock - Linear High Bay'', ''Linear High Bay''),
      (''Limited Stock - High Bay - Linear Fixtures'', ''Linear High Bay''),
      (''High Bay - Round Limited Stock'', ''Round High Bay''),
      (''HBU3 Accessories'', ''Round High Bay''),
      (''PT-WAA Series -'', ''Wraparound''),
      (''Limited Stock Strip Light'', ''Strip Light''),
      (''LSFA'', ''Strip Light''),
      (''Accessories'', ''Accessories''),
      (''Limited Stock - Vapor Tight'', ''Vaportight'')]"

text \<open>The loop of \<^verbatim>\<open>map_category\<close> over the items that are left.\<close>

fun map_category_loop :: "(string \<times> string) list \<Rightarrow> string \<Rightarrow> string" where
  "map_category_loop [] raw_category = raw_category"
| "map_category_loop ((key, val) # items) raw_category =
     (if py_in (py_lower key) (py_lower raw_category) then val
      else map_category_loop items raw_category)"

definition map_category :: "string \<Rightarrow> string" where
  "map_category raw_category = map_category_loop CATEGORY_MAP raw_category"

subsection \<open>\<^verbatim>\<open>parse_int\<close>\<close>

text \<open>
  \<^verbatim>\<open>
  def parse_int(value):
      if not value:
          return 0
      cleaned = re.sub(r'[,\s]', '', str(value))
      try:
          return int(cleaned)
      except ValueError:
          return 0
  \<close>
  Only ValueError is caught; any other exception of \<^verbatim>\<open>int\<close> would leave the function.
\<close>

definition parse_int :: "string \<Rightarrow> py_error + int" where
  "parse_int v =
     (if v = [] then Inr 0
      else let cleaned = re_sub_comma_space v
           in case py_int cleaned of
                Inr n \<Rightarrow> Inr n
              | Inl ValueError \<Rightarrow> Inr 0
              | Inl e \<Rightarrow> Inl e)"

subsection \<open>\<^verbatim>\<open>list(csv.reader(StringIO(csv_content)))\<close>\<close>

text \<open>
  \<^verbatim>\<open>StringIO\<close> hands the text over line by line; a line ends after a line feed, and
  a last line without one is handed over as it is.
\<close>

fun split_lines :: "string \<Rightarrow> string \<Rightarrow> string list" where
  "split_lines cur [] = (if cur = [] then [] else [cur])"
| "split_lines cur (c # cs) =
     (if c = CHR 0x0A then (cur @ [c]) # split_lines [] cs else split_lines (cur @ [c]) cs)"

definition readlines :: "string \<Rightarrow> string list" where
  "readlines s = split_lines [] s"

text \<open>
  The reader of the \<^verbatim>\<open>csv\<close> module is a state machine over the characters of each
  line, with an end-of-line mark after the last character of the line. The dialect is
  the default one: delimiter comma, quote character \<^verbatim>\<open>"\<close>, doubled quotes, no escape
  character, no skipping of initial spaces, not strict. The three states that only an
  escape character reaches are left out. A field may hold 131072 characters; one more
  is an error of the module (\<^verbatim>\<open>_csv.Error\<close>), and so is any character other than a
  line break between a carriage return that ended a record and the end of the line.
\<close>

datatype parser_state =
  START_RECORD | START_FIELD | IN_FIELD | IN_QUOTED_FIELD | QUOTE_IN_QUOTED_FIELD | EAT_CRNL

datatype csv_char = Chr char | EOL

record reader =
  state :: parser_state
  field :: string
  row_fields :: "string list"

definition field_limit :: nat where
  "field_limit = 131072"

definition parse_reset :: reader where
  "parse_reset = \<lparr>state = START_RECORD, field = [], row_fields = []\<rparr>"

definition parse_save_field :: "reader \<Rightarrow> reader" where
  "parse_save_field r = r\<lparr>row_fields := row_fields r @ [field r], field := []\<rparr>"

definition parse_add_char :: "reader \<Rightarrow> char \<Rightarrow> py_error + reader" where
  "parse_add_char r c =
     (if length (field r) \<ge> field_limit then Inl CsvError
      else Inr (r\<lparr>field := field r @ [c]\<rparr>))"

definition is_crnl :: "char \<Rightarrow> bool" where
  "is_crnl c = (c = CHR 0x0A \<or> c = CHR 0x0D)"

text \<open>The case \<^verbatim>\<open>START_FIELD\<close>, which the case \<^verbatim>\<open>START_RECORD\<close> falls through to.\<close>

definition start_field :: "reader \<Rightarrow> csv_char \<Rightarrow> py_error + reader" where
  "start_field r c =
     (case c of
        EOL \<Rightarrow> Inr ((parse_save_field r)\<lparr>state := START_RECORD\<rparr>)
      | Chr ch \<Rightarrow>
          if is_crnl ch then Inr ((parse_save_field r)\<lparr>state := EAT_CRNL\<rparr>)
          else if ch = CHR 0x22 then Inr (r\<lparr>state := IN_QUOTED_FIELD\<rparr>)
          else if ch = CHR '','' then Inr (parse_save_field r)
          else bindE (parse_add_char r ch) (\<lambda>r'. Inr (r'\<lparr>state := IN_FIELD\<rparr>)))"

definition parse_process_char :: "reader \<Rightarrow> csv_char \<Rightarrow> py_error + reader" where
  "parse_process_char r c =
     (case state r of
        START_RECORD \<Rightarrow>
          (case c of
             EOL \<Rightarrow> Inr r
           | Chr ch \<Rightarrow>
               if is_crnl ch then Inr (r\<lparr>state := EAT_CRNL\<rparr>)
               else start_field (r\<lparr>state := START_FIELD\<rparr>) c)
      | START_FIELD \<Rightarrow> start_field r c
      | IN_FIELD \<Rightarrow>
          (case c of
             EOL \<Rightarrow> Inr ((parse_save_field r)\<lparr>state := START_RECORD\<rparr>)
           | Chr ch \<Rightarrow>
               if is_crnl ch then Inr ((parse_save_field r)\<lparr>state := EAT_CRNL\<rparr>)
               else if ch = CHR '','' then Inr ((parse_save_field r)\<lparr>state := START_FIELD\<rparr>)
               else parse_add_char r ch)
      | IN_QUOTED_FIELD \<Rightarrow>
          (case c of
             EOL \<Rightarrow> Inr r
           | Chr ch \<Rightarrow>
               if ch = CHR 0x22 then Inr (r\<lparr>state := QUOTE_IN_QUOTED_FIELD\<rparr>)
               else parse_add_char r ch)
      | QUOTE_IN_QUOTED_FIELD \<Rightarrow>
          (case c of
             EOL \<Rightarrow> Inr ((parse_save_field r)\<lparr>state := START_RECORD\<rparr>)
           | Chr ch \<Rightarrow>
               if ch = CHR 0x22
               then bindE (parse_add_char r ch) (\<lambda>r'. Inr (r'\<lparr>state := IN_QUOTED_FIELD\<rparr>))
               else if ch = CHR '','' then Inr ((parse_save_field r)\<lparr>state := START_FIELD\<rparr>)
               else if is_crnl ch then Inr ((parse_save_field r)\<lparr>state := EAT_CRNL\<rparr>)
               else bindE (parse_add_char r ch) (\<lambda>r'. Inr (r'\<lparr>state := IN_FIELD\<rparr>)))
      | EAT_CRNL \<Rightarrow>
          (case c of
             EOL \<Rightarrow> Inr (r\<lparr>state := START_RECORD\<rparr>)
           | Chr ch \<Rightarrow> if is_crnl ch then Inr r else Inl CsvError))"

text \<open>The characters of one line, then the end-of-line mark.\<close>

fun feed :: "reader \<Rightarrow> string \<Rightarrow> py_error + reader" where
  "feed r [] = Inr r"
| "feed r (c # cs) = bindE (parse_process_char r (Chr c)) (\<lambda>r'. feed r' cs)"

definition feed_line :: "reader \<Rightarrow> string \<Rightarrow> py_error + reader" where
  "feed_line r line = bindE (feed r line) (\<lambda>r'. parse_process_char r' EOL)"

text \<open>
  One record is complete when the machine is back in \<^verbatim>\<open>START_RECORD\<close> at the end
  of a line; the reader is then reset for the next record. When the lines run out inside
  a record (a quoted field that was never closed), the field read so far is saved and the
  record is returned. The first error ends the whole reading: \<^verbatim>\<open>list(reader)\<close> raises.
\<close>

fun read_records :: "reader \<Rightarrow> string list \<Rightarrow> py_error + string list list" where
  "read_records r [] =
     (if field r \<noteq> [] \<or> state r = IN_QUOTED_FIELD then Inr [row_fields (parse_save_field r)]
      else Inr [])"
| "read_records r (line # lines) =
     bindE (feed_line r line) (\<lambda>r'.
       if state r' = START_RECORD
       then bindE (read_records parse_reset lines) (\<lambda>rows. Inr (row_fields r' # rows))
       else read_records r' lines)"

definition csv_rows :: "string \<Rightarrow> py_error + string list list" where
  "csv_rows csv_content = read_records parse_reset (readlines csv_content)"

subsection \<open>Products and the row loop of \<^verbatim>\<open>parse_clearance_csv\<close>\<close>

record product =
  sku :: string
  description :: string
  wattage :: string
  category :: string
  subcategory :: string
  ontario :: int
  louisville :: int
  phoenix :: int
  dallas :: int
  chicago :: int
  total :: int
  notes' :: string
  spec_url :: string

text \<open>
  The test of the header search:
  \<^verbatim>\<open>len(row) > 1 and ("Item# / SKU" in str(row[1]) or "Item#" in str(row[1]))\<close>.
\<close>

definition is_header_row :: "string list \<Rightarrow> py_error + bool" where
  "is_header_row row =
     (if length row > 1
      then bindE (py_index row 1) (\<lambda>c.
             if py_in ''Item# / SKU'' c then Inr True
             else bindE (py_index row 1) (\<lambda>c'. Inr (py_in ''Item#'' c')))
      else Inr False)"

text \<open>
  \<^verbatim>\<open>for i, row in enumerate(rows)\<close> with its \<^verbatim>\<open>break\<close>: the index of the first
  header row, or \<^verbatim>\<open>None\<close>.
\<close>

fun find_header :: "nat \<Rightarrow> string list list \<Rightarrow> py_error + nat option" where
  "find_header i [] = Inr None"
| "find_header i (row # rows) =
     bindE (is_header_row row) (\<lambda>h. if h then Inr (Some i) else find_header (Suc i) rows)"

text \<open>The variables that the loop over the data rows updates.\<close>

record loop_state =
  products :: "product list"
  current_category :: string
  current_subcategory :: string

definition init_state :: loop_state where
  "init_state = \<lparr>products = [], current_category = [], current_subcategory = []\<rparr>"

text \<open>
  \<^verbatim>\<open>row[i].strip() if len(row) > i else ""\<close> (description, wattage, notes) and
  \<^verbatim>\<open>parse_int(row[i] if len(row) > i else "0")\<close> (the six quantities).
\<close>

definition text_cell :: "string list \<Rightarrow> nat \<Rightarrow> py_error + string" where
  "text_cell row i =
     (if length row > i then bindE (py_index row i) (\<lambda>c. Inr (py_strip c)) else Inr [])"

definition qty_cell :: "string list \<Rightarrow> nat \<Rightarrow> py_error + int" where
  "qty_cell row i = bindE (if length row > i then py_index row i else Inr ''0'') parse_int"

text \<open>
  \<^verbatim>\<open>
  spec_url = ""
  if len(row) > 11:
      raw_spec = row[11].strip()
      if raw_spec and raw_spec != "#N/A" and raw_spec.startswith("http"):
          spec_url = raw_spec
  \<close>
\<close>

definition spec_url_of :: "string list \<Rightarrow> py_error + string" where
  "spec_url_of row =
     (if length row > 11
      then bindE (py_index row 11) (\<lambda>c.
             let raw_spec = py_strip c
             in Inr (if raw_spec \<noteq> [] \<and> raw_spec \<noteq> ''#N/A'' \<and> prefix ''http'' raw_spec
                     then raw_spec else []))
      else Inr [])"

text \<open>The product of a row with a SKU, its fields evaluated in the order of the source.\<close>

definition make_product :: "loop_state \<Rightarrow> string list \<Rightarrow> string \<Rightarrow> py_error + product" where
  "make_product st row sku_col =
     bindE (spec_url_of row) (\<lambda>url.
     bindE (text_cell row 2) (\<lambda>descr.
     bindE (text_cell row 3) (\<lambda>watt.
     bindE (qty_cell row 4) (\<lambda>q4.
     bindE (qty_cell row 5) (\<lambda>q5.
     bindE (qty_cell row 6) (\<lambda>q6.
     bindE (qty_cell row 7) (\<lambda>q7.
     bindE (qty_cell row 8) (\<lambda>q8.
     bindE (qty_cell row 9) (\<lambda>q9.
     bindE (text_cell row 10) (\<lambda>nts.
       Inr \<lparr>sku = sku_col,
            description = descr,
            wattage = watt,
            category = (if current_category st \<noteq> [] then map_category (current_category st)
                        else map_category (current_subcategory st)),
            subcategory = current_subcategory st,
            ontario = q4, louisville = q5, phoenix = q6, dallas = q7, chicago = q8,
            total = q9,
            notes' = nts,
            spec_url = url\<rparr>))))))))))"

text \<open>
  \<^verbatim>\<open>first_col = row[0].strip() if row[0] else ""\<close> and
  \<^verbatim>\<open>sku_col = row[1].strip() if len(row) > 1 and row[1] else ""\<close>.
\<close>

definition first_col_of :: "string list \<Rightarrow> py_error + string" where
  "first_col_of row = bindE (py_index row 0) (\<lambda>c. Inr (if c \<noteq> [] then py_strip c else []))"

definition sku_col_of :: "string list \<Rightarrow> py_error + string" where
  "sku_col_of row =
     (if length row > 1
      then bindE (py_index row 1) (\<lambda>c. Inr (if c \<noteq> [] then py_strip c else []))
      else Inr [])"

text \<open>
  One pass of the loop body. A \<^verbatim>\<open>continue\<close> returns the state as it is at that
  point; a product is appended to \<^verbatim>\<open>products\<close>.
\<close>

definition process_row :: "loop_state \<Rightarrow> string list \<Rightarrow> py_error + loop_state" where
  "process_row st row =
     (if length row < 2 then Inr st
      else
        bindE (first_col_of row) (\<lambda>first_col.
        bindE (sku_col_of row) (\<lambda>sku_col.
          if first_col = [] \<and> sku_col = [] then Inr st
          else if first_col \<noteq> [] \<and> sku_col = []
          then Inr (st\<lparr>current_category := py_strip (replace_newline first_col),
                       current_subcategory := []\<rparr>)
          else
            let st1 = (if first_col \<noteq> [] \<and> sku_col \<noteq> []
                       then st\<lparr>current_subcategory := py_strip (replace_newline first_col)\<rparr>
                       else st)
            in if sku_col \<noteq> []
               then bindE (make_product st1 row sku_col) (\<lambda>p.
                      Inr (st1\<lparr>products := products st1 @ [p]\<rparr>))
               else Inr st1)))"

fun process_rows :: "loop_state \<Rightarrow> string list list \<Rightarrow> py_error + loop_state" where
  "process_rows st [] = Inr st"
| "process_rows st (row # rows) = bindE (process_row st row) (\<lambda>st'. process_rows st' rows)"

subsection \<open>\<^verbatim>\<open>parse_clearance_csv\<close>\<close>

text \<open>
  What the function prints goes to the end of the lines printed so far, which are passed
  in and returned. \<^verbatim>\<open>rows[header_row_idx + 1:]\<close> is the rows after the header row.
\<close>

definition parse_clearance_csv ::
  "string \<Rightarrow> string list \<Rightarrow> py_error + (product list \<times> string list)" where
  "parse_clearance_csv csv_content out =
     bindE (csv_rows csv_content) (\<lambda>rows.
     bindE (find_header 0 rows) (\<lambda>header_row_idx.
       case header_row_idx of
         None \<Rightarrow> Inr ([], out @ [''Could not find header row''])
       | Some i \<Rightarrow>
           bindE (process_rows init_state (drop (i + 1) rows)) (\<lambda>st.
             Inr (products st, out))))"

subsection \<open>\<^verbatim>\<open>fetch_sheet_csv\<close> and \<^verbatim>\<open>main\<close>\<close>

text \<open>
  The network is outside the program: the outcome of the request is an input of the
  model, either the decoded body or the message of the exception that the request
  raised. \<^verbatim>\<open>fetch_sheet_csv\<close> catches every exception, prints it and returns
  \<^verbatim>\<open>None\<close>.
\<close>

datatype response = Body string | Failure string

definition GID :: string where
  "GID = ''0''"

definition fetch_sheet_csv :: "response \<Rightarrow> string \<Rightarrow> string list \<Rightarrow> string option \<times> string list" where
  "fetch_sheet_csv resp gid out =
     (case resp of
        Body text \<Rightarrow> (Some text, out)
      | Failure e \<Rightarrow> (None, out @ [''Error fetching sheet (gid='' @ gid @ ''): '' @ e]))"

text \<open>
  The document that \<^verbatim>\<open>main\<close> writes to \<^verbatim>\<open>clearance_data.json\<close>, as the value that
  is serialised. The three readings of the clock are inputs: the time of the first line
  printed, \<^verbatim>\<open>updated_at\<close> and \<^verbatim>\<open>updated_at_pacific\<close>.
\<close>

record clearance_tab =
  tab_name :: string
  tab_products :: "product list"
  tab_count :: nat

record output_doc =
  updated_at :: string
  updated_at_pacific :: string
  tabs_clearance :: clearance_tab

text \<open>
  A run ends with the status that \<^verbatim>\<open>main\<close> returns (\<^verbatim>\<open>exit(main())\<close>), the lines
  printed, and the document written, if one was. An exception that leaves \<^verbatim>\<open>main\<close>
  is the \<open>Inl\<close> case.
\<close>

record run =
  exit_status :: int
  stdout :: "string list"
  written :: "output_doc option"

definition main :: "response \<Rightarrow> string \<Rightarrow> string \<Rightarrow> string \<Rightarrow> py_error + run" where
  "main resp now0 now1 now2 =
     (let out0 = [''Starting clearance update at '' @ now0];
          out1 = out0 @ [''Fetching clearance data (gid='' @ GID @ '')...''];
          (csv_content, out2) = fetch_sheet_csv resp GID out1
      in case csv_content of
           None \<Rightarrow>
             Inr \<lparr>exit_status = 1, stdout = out2 @ [''Failed to fetch clearance data''],
                  written = None\<rparr>
         | Some text \<Rightarrow>
             if text = []
             then Inr \<lparr>exit_status = 1, stdout = out2 @ [''Failed to fetch clearance data''],
                       written = None\<rparr>
             else
               bindE (parse_clearance_csv text out2) (\<lambda>(prods, out3).
               bindE (py_str (int (length prods))) (\<lambda>n.
                 let out4 = out3 @ [''Parsed '' @ n @ '' clearance products''];
                     all_data = \<lparr>updated_at = now1, updated_at_pacific = now2,
                                 tabs_clearance = \<lparr>tab_name = ''Clearance Stock'',
                                                    tab_products = prods,
                                                    tab_count = length prods\<rparr>\<rparr>
                 in Inr \<lparr>exit_status = 0,
                         stdout = out4 @ [''Wrote clearance_data.json'', ''Update complete!''],
                         written = Some all_data\<rparr>)))"

subsection \<open>Vocabulary of the statements\<close>

text \<open>
  The values that the fields of a product take, as functions of the row it is made from:
  the trimmed text of a cell (empty when the column is absent) and the quantity of a cell
  (0 when the column is absent or \<^verbatim>\<open>int\<close> fails on its text without commas and
  whitespace). A row is marked as header row when its second cell contains
  \<^verbatim>\<open>Item#\<close>.
\<close>

definition text_at :: "string list \<Rightarrow> nat \<Rightarrow> string" where
  "text_at row i = (if i < length row then py_strip (row ! i) else [])"

definition quantity_at :: "string list \<Rightarrow> nat \<Rightarrow> int" where
  "quantity_at row i =
     (if i < length row
      then (case py_int (re_sub_comma_space (row ! i)) of Inr n \<Rightarrow> n | Inl e \<Rightarrow> 0)
      else 0)"

definition url_at :: "string list \<Rightarrow> string" where
  "url_at row =
     (if 11 < length row \<and> py_strip (row ! 11) \<noteq> [] \<and> py_strip (row ! 11) \<noteq> ''#N/A'' \<and>
         prefix ''http'' (py_strip (row ! 11))
      then py_strip (row ! 11) else [])"

definition header_marked :: "string list \<Rightarrow> bool" where
  "header_marked row = (1 < length row \<and> sublist ''Item#'' (row ! 1))"

text \<open>
  The product that a row with a SKU gives in a state of the loop, and the loop body as a
  function without exceptions; \<open>process_row_eq\<close> below shows that \<^verbatim>\<open>process_row\<close>
  returns exactly this state.
\<close>

definition row_product :: "loop_state \<Rightarrow> string list \<Rightarrow> product" where
  "row_product st row =
     \<lparr>sku = text_at row 1,
      description = text_at row 2,
      wattage = text_at row 3,
      category = (if current_category st \<noteq> [] then map_category (current_category st)
                  else map_category (current_subcategory st)),
      subcategory = current_subcategory st,
      ontario = quantity_at row 4, louisville = quantity_at row 5,
      phoenix = quantity_at row 6, dallas = quantity_at row 7,
      chicago = quantity_at row 8, total = quantity_at row 9,
      notes' = text_at row 10,
      spec_url = url_at row\<rparr>"

definition row_step :: "loop_state \<Rightarrow> string list \<Rightarrow> loop_state" where
  "row_step st row =
     (if length row < 2 then st
      else if text_at row 0 = [] \<and> text_at row 1 = [] then st
      else if text_at row 1 = []
      then st\<lparr>current_category := py_strip (replace_newline (text_at row 0)),
              current_subcategory := []\<rparr>
      else if text_at row 0 = []
      then st\<lparr>products := products st @ [row_product st row]\<rparr>
      else st\<lparr>current_subcategory := py_strip (replace_newline (text_at row 0)),
              products := products st @
                [row_product (st\<lparr>current_subcategory :=
                    py_strip (replace_newline (text_at row 0))\<rparr>) row]\<rparr>)"

text \<open>What a product has from the row it is made from, whatever the state of the loop.\<close>

definition emitted_from :: "string list \<Rightarrow> product \<Rightarrow> bool" where
  "emitted_from row p =
     (2 \<le> length row \<and> text_at row 1 \<noteq> [] \<and>
      sku p = text_at row 1 \<and> description p = text_at row 2 \<and> wattage p = text_at row 3 \<and>
      ontario p = quantity_at row 4 \<and> louisville p = quantity_at row 5 \<and>
      phoenix p = quantity_at row 6 \<and> dallas p = quantity_at row 7 \<and>
      chicago p = quantity_at row 8 \<and> total p = quantity_at row 9 \<and>
      notes' p = text_at row 10 \<and> spec_url p = url_at row)"

section \<open>Properties\<close>

subsection \<open>Evaluation of the string operations\<close>

lemma char_eq_char_of: "c = char_of (n::nat) \<longleftrightarrow> of_char c = take_bit 8 n"
  using char_of_eq_iff [of n c] by auto

lemmas str_eval = py_lower_def lower_char_def sublist_code char_of_eq_iff char_eq_char_of

lemmas int_eval = re_sub_comma_space_def py_isspace_def py_int_def int_isspace_def
  digit_part_def is_digit_def digit_val_def dec_value_def max_str_digits_def

subsection \<open>\<^verbatim>\<open>map_category\<close>\<close>

lemma map_category_loop_skip:
  "\<forall>(a', c') \<in> set pre. \<not> sublist (py_lower a') (py_lower X) \<Longrightarrow>
   map_category_loop (pre @ rest) X = map_category_loop rest X"
  by (induction pre) (auto simp: py_in_def)

text \<open>
  Claim C1. For every raw label \<open>X\<close>, \<^verbatim>\<open>map_category\<close> goes through the alias
  mapping in its declared order and returns the canonical name of the first alias whose
  text occurs in \<open>X\<close> as a substring, case ignored: when the mapping splits into
  \<open>pre\<close>, the pair \<open>(a, c)\<close> and \<open>post\<close>, the alias \<open>a\<close> occurs in \<open>X\<close> and no
  alias of \<open>pre\<close> does, the result is \<open>c\<close>. When no alias occurs in \<open>X\<close>, the
  result is \<open>X\<close> itself.
\<close>

theorem map_category_first_match:
  "(\<forall>pre a c post.
      CATEGORY_MAP = pre @ (a, c) # post \<and> sublist (py_lower a) (py_lower X) \<and>
      (\<forall>(a', c') \<in> set pre. \<not> sublist (py_lower a') (py_lower X))
      \<longrightarrow> map_category X = c) \<and>
   ((\<forall>(a, c) \<in> set CATEGORY_MAP. \<not> sublist (py_lower a) (py_lower X))
      \<longrightarrow> map_category X = X)"
proof (intro conjI allI impI)
  fix pre a c post
  assume h: "CATEGORY_MAP = pre @ (a, c) # post \<and> sublist (py_lower a) (py_lower X) \<and>
      (\<forall>(a', c') \<in> set pre. \<not> sublist (py_lower a') (py_lower X))"
  then have "map_category_loop (pre @ (a, c) # post) X = map_category_loop ((a, c) # post) X"
    by (intro map_category_loop_skip) simp
  moreover have "map_category_loop ((a, c) # post) X = c"
    using h by (simp add: py_in_def)
  ultimately show "map_category X = c"
    using h by (simp add: map_category_def)
next
  assume "\<forall>(a, c) \<in> set CATEGORY_MAP. \<not> sublist (py_lower a) (py_lower X)"
  then show "map_category X = X"
    using map_category_loop_skip [of CATEGORY_MAP X "[]"] by (simp add: map_category_def)
qed

text \<open>
  The label \<^verbatim>\<open>LSFA Accessories\<close> contains the aliases \<^verbatim>\<open>LSFA\<close> and
  \<^verbatim>\<open>Accessories\<close>; the earlier one decides. \<^verbatim>\<open>Exit Sign\<close> contains no alias.
\<close>

theorem map_category_first_match_witness:
  "sublist (py_lower ''LSFA'') (py_lower ''LSFA Accessories'') \<and>
   sublist (py_lower ''Accessories'') (py_lower ''LSFA Accessories'') \<and>
   map_category ''LSFA Accessories'' = ''Strip Light'' \<and>
   filter (\<lambda>(a, c). sublist (py_lower a) (py_lower ''Exit Sign'')) CATEGORY_MAP = [] \<and>
   map_category ''Exit Sign'' = ''Exit Sign''"
proof -
  have m1: "sublist (py_lower ''LSFA'') (py_lower ''LSFA Accessories'')"
    by (simp add: str_eval)
  have m2: "sublist (py_lower ''Accessories'') (py_lower ''LSFA Accessories'')"
    by (simp add: str_eval)
  have split: "CATEGORY_MAP =
      take 10 CATEGORY_MAP @ (''LSFA'', ''Strip Light'') # drop 11 CATEGORY_MAP"
    by (simp add: CATEGORY_MAP_def)
  have none: "\<forall>(a', c') \<in> set (take 10 CATEGORY_MAP).
      \<not> sublist (py_lower a') (py_lower ''LSFA Accessories'')"
    by (simp add: CATEGORY_MAP_def str_eval)
  have r1: "map_category ''LSFA Accessories'' = ''Strip Light''"
    using map_category_first_match [of "''LSFA Accessories''"] split m1 none by blast
  have none2: "\<forall>(a, c) \<in> set CATEGORY_MAP. \<not> sublist (py_lower a) (py_lower ''Exit Sign'')"
    by (simp add: CATEGORY_MAP_def str_eval)
  have r2: "map_category ''Exit Sign'' = ''Exit Sign''"
    using map_category_first_match [of "''Exit Sign''"] none2 by blast
  have none3: "filter (\<lambda>(a, c). sublist (py_lower a) (py_lower ''Exit Sign'')) CATEGORY_MAP = []"
    by (simp add: CATEGORY_MAP_def str_eval)
  show ?thesis using m1 m2 r1 none3 r2 by blast
qed

subsection \<open>\<^verbatim>\<open>parse_int\<close>\<close>

lemma py_int_error: "py_int s = Inl e \<Longrightarrow> e = ValueError"
  by (auto simp: py_int_def Let_def split: option.splits if_splits)

lemma py_int_Nil: "py_int [] = Inl ValueError"
  by (simp add: py_int_def digit_part_def)

lemma parse_int_eq:
  "parse_int s = Inr (case py_int (re_sub_comma_space s) of Inr n \<Rightarrow> n | Inl e \<Rightarrow> 0)"
proof (cases "s = []")
  case True
  then show ?thesis by (simp add: parse_int_def re_sub_comma_space_def py_int_Nil)
next
  case False
  show ?thesis
  proof (cases "py_int (re_sub_comma_space s)")
    case (Inl e)
    then have "e = ValueError" by (rule py_int_error)
    with Inl False show ?thesis by (simp add: parse_int_def)
  next
    case (Inr n)
    with False show ?thesis by (simp add: parse_int_def)
  qed
qed

text \<open>
  Claim C4. For every string \<open>s\<close>, \<^verbatim>\<open>parse_int(s)\<close> returns, and never raises: the
  result is what \<^verbatim>\<open>int\<close> makes of \<open>s\<close> without its commas and whitespace
  characters, and 0 when \<^verbatim>\<open>int\<close> fails on that text. In particular
  \<^verbatim>\<open>parse_int("1,234") = 1234\<close>, \<^verbatim>\<open>parse_int("") = 0\<close>, \<^verbatim>\<open>parse_int("abc") = 0\<close>
  and \<^verbatim>\<open>parse_int("  42 ") = 42\<close>.
\<close>

theorem parse_int_strip_then_parse:
  "parse_int s =
     Inr (case py_int (filter (\<lambda>c. c \<noteq> CHR '','' \<and> \<not> py_isspace c) s) of
            Inr n \<Rightarrow> n | Inl e \<Rightarrow> 0) \<and>
   parse_int ''1,234'' = Inr 1234 \<and> parse_int [] = Inr 0 \<and>
   parse_int ''abc'' = Inr 0 \<and> parse_int ''  42 '' = Inr 42"
proof -
  have "parse_int s =
     Inr (case py_int (filter (\<lambda>c. c \<noteq> CHR '','' \<and> \<not> py_isspace c) s) of
            Inr n \<Rightarrow> n | Inl e \<Rightarrow> 0)"
    using parse_int_eq [of s] by (simp add: re_sub_comma_space_def)
  moreover have "parse_int ''1,234'' = Inr 1234"
    by (simp add: parse_int_eq int_eval)
  moreover have "parse_int [] = Inr 0"
    by (simp add: parse_int_def)
  moreover have "parse_int ''abc'' = Inr 0"
    by (simp add: parse_int_eq int_eval)
  moreover have "parse_int ''  42 '' = Inr 42"
    by (simp add: parse_int_eq int_eval)
  ultimately show ?thesis by blast
qed

subsection \<open>\<^verbatim>\<open>str\<close> of an integer, read back by \<^verbatim>\<open>parse_int\<close>\<close>

lemma of_char_digit_char: "d < 10 \<Longrightarrow> (of_char (digit_char d) :: nat) = 48 + d"
  by (simp add: digit_char_def)

lemma is_digit_digit_char: "d < 10 \<Longrightarrow> is_digit (digit_char d)"
  by (simp add: is_digit_def of_char_digit_char)

lemma digit_val_digit_char: "d < 10 \<Longrightarrow> digit_val (digit_char d) = d"
  by (simp add: digit_val_def of_char_digit_char)

lemma digit_val_less: "is_digit c \<Longrightarrow> digit_val c < 10"
  by (auto simp: is_digit_def digit_val_def Let_def)

lemma is_digit_plain:
  "is_digit c \<Longrightarrow> \<not> py_isspace c \<and> \<not> int_isspace c \<and> c \<noteq> CHR '','' \<and> c \<noteq> CHR ''+'' \<and> c \<noteq> CHR ''-''"
  by (auto simp: is_digit_def py_isspace_def int_isspace_def Let_def)

lemma digits_of_digits: "\<forall>c \<in> set (digits_of n). is_digit c"
proof (induction n rule: digits_of.induct)
  case (1 n)
  show ?case
  proof (cases "n < 10")
    case True
    then show ?thesis by (simp add: digits_of.simps [of n] is_digit_digit_char)
  next
    case False
    with 1 show ?thesis by (simp add: digits_of.simps [of n] is_digit_digit_char)
  qed
qed

lemma digits_of_not_Nil: "digits_of n \<noteq> []"
  by (simp add: digits_of.simps [of n])

lemma more_digits_all: "\<forall>c \<in> set s. is_digit c \<Longrightarrow> more_digits s = Some (map digit_val s)"
  by (induction s rule: more_digits.induct) auto

lemma digit_part_all:
  "s \<noteq> [] \<Longrightarrow> \<forall>c \<in> set s. is_digit c \<Longrightarrow> digit_part s = Some (map digit_val s)"
  by (cases s) (auto simp: digit_part_def more_digits_all)

lemma dec_value_snoc: "dec_value (ds @ [d]) = 10 * dec_value ds + d"
  by (simp add: dec_value_def)

lemma dec_value_digits_of: "dec_value (map digit_val (digits_of n)) = n"
proof (induction n rule: digits_of.induct)
  case (1 n)
  show ?case
  proof (cases "n < 10")
    case True
    then show ?thesis by (simp add: digits_of.simps [of n] digit_val_digit_char dec_value_def)
  next
    case False
    with 1 show ?thesis
      by (simp add: digits_of.simps [of n] digit_val_digit_char dec_value_snoc)
  qed
qed

lemma more_digits_range: "more_digits s = Some ds \<Longrightarrow> \<forall>d \<in> set ds. d < 10"
  by (induction s arbitrary: ds rule: more_digits.induct)
     (auto simp: digit_val_less split: if_splits)

lemma digit_part_range:
  assumes "digit_part s = Some ds"
  shows "ds \<noteq> [] \<and> (\<forall>d \<in> set ds. d < 10)"
proof (cases s)
  case Nil
  with assms show ?thesis by (simp add: digit_part_def)
next
  case (Cons c cs)
  with assms obtain z where z: "is_digit c" "more_digits cs = Some z" "ds = digit_val c # z"
    by (auto simp: digit_part_def split: if_splits)
  from z(2) have "\<forall>d \<in> set z. d < 10" by (rule more_digits_range)
  with z show ?thesis by (simp add: digit_val_less)
qed

lemma dec_value_less: "\<forall>d \<in> set ds. d < 10 \<Longrightarrow> dec_value ds < 10 ^ length ds"
proof (induction ds rule: rev_induct)
  case Nil
  then show ?case by (simp add: dec_value_def)
next
  case (snoc d ds)
  then have "dec_value ds < 10 ^ length ds" and "d < 10" by simp_all
  then have "10 * dec_value ds + d < 10 * 10 ^ length ds" by arith
  then show ?case by (simp add: dec_value_snoc)
qed

lemma length_digits_of: "m < 10 ^ k \<Longrightarrow> 0 < k \<Longrightarrow> length (digits_of m) \<le> k"
proof (induction k arbitrary: m)
  case 0
  then show ?case by simp
next
  case (Suc k)
  show ?case
  proof (cases "m < 10")
    case True
    then show ?thesis by (simp add: digits_of.simps [of m])
  next
    case False
    with Suc.prems have "m div 10 < 10 ^ k" by (simp add: less_mult_imp_div_less mult.commute)
    moreover from False Suc.prems have "0 < k" by (cases k) auto
    ultimately have "length (digits_of (m div 10)) \<le> k" by (rule Suc.IH)
    with False show ?thesis by (simp add: digits_of.simps [of m])
  qed
qed

lemma strip_plain:
  "s \<noteq> [] \<Longrightarrow> \<not> P (hd s) \<Longrightarrow> \<not> P (last s) \<Longrightarrow> rev (dropWhile P (rev (dropWhile P s))) = s"
proof -
  assume a: "s \<noteq> []" "\<not> P (hd s)" "\<not> P (last s)"
  then have "dropWhile P s = s" by (cases s) auto
  moreover from a have "dropWhile P (rev s) = rev s"
    by (cases "rev s") (auto simp: last_rev [symmetric] hd_rev simp del: last_rev)
  ultimately show ?thesis by simp
qed

lemma py_int_digits:
  assumes "s \<noteq> []" "\<forall>c \<in> set s. is_digit c" "length s \<le> max_str_digits"
  shows "py_int s = Inr (int (dec_value (map digit_val s)))"
    and "py_int (CHR ''-'' # s) = Inr (- int (dec_value (map digit_val s)))"
proof -
  from assms have hl: "\<not> int_isspace (hd s)" "\<not> int_isspace (last s)" "hd s \<noteq> CHR ''+''" "hd s \<noteq> CHR ''-''"
    using is_digit_plain by (simp_all add: hd_in_set last_in_set)
  with assms have t: "rev (dropWhile int_isspace (rev (dropWhile int_isspace s))) = s"
    by (intro strip_plain) auto
  from hl assms show "py_int s = Inr (int (dec_value (map digit_val s)))"
    unfolding py_int_def t
    by (cases s) (auto simp: digit_part_all Let_def)
  have "\<not> int_isspace (CHR ''-'')" by (simp add: int_isspace_def)
  with hl assms have t': "rev (dropWhile int_isspace (rev (dropWhile int_isspace (CHR ''-'' # s)))) = CHR ''-'' # s"
    by (intro strip_plain) auto
  from assms show "py_int (CHR ''-'' # s) = Inr (- int (dec_value (map digit_val s)))"
    unfolding py_int_def t'
    by (simp add: digit_part_all Let_def)
qed

lemma re_sub_plain:
  "\<forall>c \<in> set s. \<not> py_isspace c \<and> c \<noteq> CHR '','' \<Longrightarrow> re_sub_comma_space s = s"
  by (induction s) (auto simp: re_sub_comma_space_def)

lemma parse_int_py_str:
  assumes "length (digits_of (nat \<bar>n\<bar>)) \<le> max_str_digits"
  shows "\<exists>t. py_str n = Inr t \<and> parse_int t = Inr n"
proof -
  let ?ds = "digits_of (nat \<bar>n\<bar>)"
  have dig: "\<forall>c \<in> set ?ds. is_digit c" by (rule digits_of_digits)
  have ne: "?ds \<noteq> []" by (rule digits_of_not_Nil)
  have val: "dec_value (map digit_val ?ds) = nat \<bar>n\<bar>" by (rule dec_value_digits_of)
  show ?thesis
  proof (cases "n < 0")
    case True
    have "\<not> py_isspace (CHR ''-'')" by (simp add: py_isspace_def)
    with dig have "re_sub_comma_space (CHR ''-'' # ?ds) = CHR ''-'' # ?ds"
      by (intro re_sub_plain) (auto dest: is_digit_plain)
    moreover have "py_int (CHR ''-'' # ?ds) = Inr n"
      using py_int_digits(2) [OF ne dig assms] val True by simp
    ultimately have "parse_int (CHR ''-'' # ?ds) = Inr n"
      by (simp add: parse_int_eq)
    with True assms show ?thesis by (simp add: py_str_def)
  next
    case False
    from dig have "re_sub_comma_space ?ds = ?ds"
      by (intro re_sub_plain) (auto dest: is_digit_plain)
    moreover have "py_int ?ds = Inr n"
      using py_int_digits(1) [OF ne dig assms] val False by simp
    ultimately have "parse_int ?ds = Inr n"
      by (simp add: parse_int_eq)
    with False assms show ?thesis by (simp add: py_str_def)
  qed
qed

lemma py_int_bound:
  assumes "py_int s = Inr n"
  shows "length (digits_of (nat \<bar>n\<bar>)) \<le> max_str_digits"
proof -
  from assms obtain body ds where ds: "digit_part body = Some ds" "length ds \<le> max_str_digits"
      and n: "n = int (dec_value ds) \<or> n = - int (dec_value ds)"
    by (auto simp: py_int_def Let_def split: option.splits if_splits)
  from ds(1) have r: "ds \<noteq> []" "\<forall>d \<in> set ds. d < 10" by (auto dest: digit_part_range)
  then have "dec_value ds < 10 ^ length ds" by (intro dec_value_less)
  moreover from r have "0 < length ds" by simp
  ultimately have "length (digits_of (dec_value ds)) \<le> length ds" by (rule length_digits_of)
  moreover from n have "nat \<bar>n\<bar> = dec_value ds" by auto
  ultimately show ?thesis using ds(2) by simp
qed

lemma parse_int_bound:
  assumes "parse_int s = Inr n"
  shows "length (digits_of (nat \<bar>n\<bar>)) \<le> max_str_digits"
proof (cases "py_int (re_sub_comma_space s)")
  case (Inl e)
  with assms have "n = 0" by (simp add: parse_int_eq)
  then show ?thesis by (simp add: digits_of.simps [of 0] max_str_digits_def)
next
  case (Inr m)
  with assms have "n = m" by (simp add: parse_int_eq)
  with Inr show ?thesis by (auto dest: py_int_bound)
qed

text \<open>
  Claim C8. \<^verbatim>\<open>parse_int\<close> is idempotent on its own output: for every string \<open>s\<close>,
  \<^verbatim>\<open>parse_int(s)\<close> returns an integer \<open>n\<close>, \<^verbatim>\<open>str(n)\<close> returns a text \<open>t\<close>
  (the integer is within the digit limit of \<^verbatim>\<open>str\<close>), and \<^verbatim>\<open>parse_int(t)\<close> returns
  \<open>n\<close> again.
\<close>

theorem parse_int_idempotent:
  "\<exists>n t. parse_int s = Inr n \<and> py_str n = Inr t \<and> parse_int t = Inr n"
proof -
  obtain n where n: "parse_int s = Inr n" by (simp add: parse_int_eq)
  then have "length (digits_of (nat \<bar>n\<bar>)) \<le> max_str_digits" by (rule parse_int_bound)
  then obtain t where "py_str n = Inr t \<and> parse_int t = Inr n"
    using parse_int_py_str by blast
  with n show ?thesis by blast
qed

subsection \<open>The row loop never raises\<close>

lemma py_strip_Nil: "py_strip [] = []"
  by (simp add: py_strip_def)

lemma text_cell_eq: "text_cell row i = Inr (text_at row i)"
  by (simp add: text_cell_def text_at_def py_index_def bindE_def)

lemma parse_int_zero: "parse_int ''0'' = Inr 0"
  by (simp add: parse_int_eq int_eval)

lemma qty_cell_eq: "qty_cell row i = Inr (quantity_at row i)"
proof (cases "i < length row")
  case True
  then show ?thesis
    by (simp add: qty_cell_def quantity_at_def py_index_def bindE_def parse_int_eq)
next
  case False
  then show ?thesis
    by (simp add: qty_cell_def quantity_at_def bindE_def parse_int_zero)
qed

lemma spec_url_of_eq: "spec_url_of row = Inr (url_at row)"
  by (simp add: spec_url_of_def url_at_def py_index_def bindE_def Let_def)

lemma make_product_eq:
  "make_product st row (text_at row 1) = Inr (row_product st row)"
  by (simp add: make_product_def row_product_def spec_url_of_eq text_cell_eq qty_cell_eq bindE_def)

lemma first_col_of_eq: "0 < length row \<Longrightarrow> first_col_of row = Inr (text_at row 0)"
  by (simp add: first_col_of_def text_at_def py_index_def bindE_def py_strip_Nil)

lemma sku_col_of_eq: "sku_col_of row = Inr (text_at row 1)"
  by (simp add: sku_col_of_def text_at_def py_index_def bindE_def py_strip_Nil)

lemma process_row_eq: "process_row st row = Inr (row_step st row)"
proof (cases "length row < 2")
  case True
  then show ?thesis by (simp add: process_row_def row_step_def)
next
  case False
  then have "0 < length row" by (cases row) auto
  then have f: "first_col_of row = Inr (text_at row 0)" by (rule first_col_of_eq)
  from False show ?thesis
    by (simp add: process_row_def row_step_def f sku_col_of_eq make_product_eq bindE_def Let_def
        del: One_nat_def)
qed

lemma process_rows_eq: "process_rows st rows = Inr (foldl row_step st rows)"
  by (induction rows arbitrary: st) (simp_all add: process_row_eq bindE_def)

subsection \<open>The header search and the errors of the CSV reader\<close>

lemma marker_in_long_marker: "sublist ''Item# / SKU'' c \<Longrightarrow> sublist ''Item#'' c"
proof -
  assume a: "sublist ''Item# / SKU'' c"
  have "sublist ''Item#'' ''Item# / SKU''" by (simp add: sublist_code)
  then show ?thesis using a by (rule sublist_order.order_trans)
qed

lemma is_header_row_eq: "is_header_row row = Inr (header_marked row)"
  by (auto simp: is_header_row_def header_marked_def py_index_def bindE_def py_in_def
      dest: marker_in_long_marker)

lemma find_header_None:
  "\<forall>row \<in> set rows. \<not> header_marked row \<Longrightarrow> find_header i rows = Inr None"
  by (induction rows arbitrary: i) (simp_all add: is_header_row_eq bindE_def)

lemma find_header_Some:
  "\<forall>row \<in> set pre. \<not> header_marked row \<Longrightarrow> header_marked h \<Longrightarrow>
   find_header i (pre @ h # rest) = Inr (Some (i + length pre))"
  by (induction pre arbitrary: i) (simp_all add: is_header_row_eq bindE_def)

lemma find_header_total: "\<exists>r. find_header i rows = Inr r"
  by (induction rows arbitrary: i) (simp_all add: is_header_row_eq bindE_def)

lemma parse_no_header:
  assumes "csv_rows content = Inr rows" "\<forall>row \<in> set rows. \<not> header_marked row"
  shows "parse_clearance_csv content out = Inr ([], out @ [''Could not find header row''])"
  using assms by (simp add: parse_clearance_csv_def bindE_def find_header_None)

lemma parse_with_header:
  assumes "csv_rows content = Inr (pre @ h # data)"
    "\<forall>row \<in> set pre. \<not> header_marked row" "header_marked h"
  shows "parse_clearance_csv content out = Inr (products (foldl row_step init_state data), out)"
  using assms
  by (simp add: parse_clearance_csv_def bindE_def find_header_Some process_rows_eq)

lemma parse_rows_cases:
  assumes "csv_rows content = Inr rows"
  shows "parse_clearance_csv content out = Inr ([], out @ [''Could not find header row'']) \<or>
         (\<exists>i. parse_clearance_csv content out =
                Inr (products (foldl row_step init_state (drop (i + 1) rows)), out))"
proof -
  obtain r where r: "find_header 0 rows = Inr r" using find_header_total by blast
  show ?thesis
  proof (cases r)
    case None
    with r assms show ?thesis by (simp add: parse_clearance_csv_def bindE_def)
  next
    case (Some i)
    with r assms show ?thesis
      by (auto simp: parse_clearance_csv_def bindE_def process_rows_eq)
  qed
qed

lemma parse_csv_error:
  "csv_rows content = Inl e \<Longrightarrow> parse_clearance_csv content out = Inl e"
  by (simp add: parse_clearance_csv_def bindE_def)

lemma parse_add_char_error: "parse_add_char r c = Inl e \<Longrightarrow> e = CsvError"
  by (simp add: parse_add_char_def split: if_splits)

lemma start_field_error: "start_field r c = Inl e \<Longrightarrow> e = CsvError"
  by (auto simp: start_field_def bindE_def split: csv_char.splits if_splits sum.splits
      dest: parse_add_char_error)

lemma parse_process_char_error: "parse_process_char r c = Inl e \<Longrightarrow> e = CsvError"
  by (auto simp: parse_process_char_def bindE_def
      split: parser_state.splits csv_char.splits if_splits sum.splits
      dest: parse_add_char_error start_field_error)

lemma feed_error: "feed r s = Inl e \<Longrightarrow> e = CsvError"
  by (induction s arbitrary: r)
     (auto simp: bindE_def split: sum.splits dest: parse_process_char_error)

lemma feed_line_error: "feed_line r s = Inl e \<Longrightarrow> e = CsvError"
  by (auto simp: feed_line_def bindE_def split: sum.splits
      dest: feed_error parse_process_char_error)

lemma read_records_error: "read_records r ls = Inl e \<Longrightarrow> e = CsvError"
proof (induction ls arbitrary: r)
  case Nil
  then show ?case by (simp split: if_splits)
next
  case (Cons l ls)
  show ?case
  proof (cases "feed_line r l")
    case (Inl e')
    with Cons.prems show ?thesis by (auto simp: bindE_def dest: feed_line_error)
  next
    case (Inr r')
    with Cons.prems Cons.IH show ?thesis
      by (auto simp: bindE_def split: if_splits sum.splits)
  qed
qed

lemma csv_rows_error: "csv_rows content = Inl e \<Longrightarrow> e = CsvError"
  by (auto simp: csv_rows_def dest: read_records_error)

subsection \<open>Every product comes from a row with a SKU\<close>

lemma emitted_from_row_product:
  "2 \<le> length row \<Longrightarrow> text_at row 1 \<noteq> [] \<Longrightarrow> emitted_from row (row_product st row)"
  by (simp add: emitted_from_def row_product_def)

lemma row_step_products:
  "products (row_step st row) = products st \<or>
   (\<exists>p. products (row_step st row) = products st @ [p] \<and> emitted_from row p)"
  by (auto simp: row_step_def emitted_from_row_product simp del: One_nat_def)

lemma foldl_row_step_products:
  "\<exists>new. products (foldl row_step st rows) = products st @ new \<and>
         (\<forall>p \<in> set new. \<exists>row \<in> set rows. emitted_from row p)"
proof (induction rows arbitrary: st)
  case Nil
  then show ?case by simp
next
  case (Cons row rows)
  obtain new where new: "products (foldl row_step (row_step st row) rows) =
      products (row_step st row) @ new" "\<forall>p \<in> set new. \<exists>r \<in> set rows. emitted_from r p"
    using Cons.IH [of "row_step st row"] by blast
  from row_step_products [of st row] show ?case
  proof
    assume "products (row_step st row) = products st"
    with new show ?thesis by auto
  next
    assume "\<exists>p. products (row_step st row) = products st @ [p] \<and> emitted_from row p"
    then obtain p where p: "products (row_step st row) = products st @ [p]" "emitted_from row p"
      by blast
    with new have "products (foldl row_step st (row # rows)) = products st @ (p # new)"
      by simp
    moreover from p new have "\<forall>q \<in> set (p # new). \<exists>r \<in> set (row # rows). emitted_from r q"
      by auto
    ultimately show ?thesis by blast
  qed
qed

lemma parse_products:
  assumes "parse_clearance_csv content out = Inr (ps, out')"
  shows "\<exists>rows. csv_rows content = Inr rows \<and>
           (\<forall>p \<in> set ps. \<exists>row \<in> set rows. emitted_from row p)"
proof (cases "csv_rows content")
  case (Inl e)
  with assms show ?thesis by (simp add: parse_csv_error)
next
  case (Inr rows)
  from parse_rows_cases [OF Inr, of out] show ?thesis
  proof
    assume "parse_clearance_csv content out = Inr ([], out @ [''Could not find header row''])"
    with assms Inr show ?thesis by simp
  next
    assume "\<exists>i. parse_clearance_csv content out =
                Inr (products (foldl row_step init_state (drop (i + 1) rows)), out)"
    then obtain i where "ps = products (foldl row_step init_state (drop (i + 1) rows))"
      using assms by auto
    moreover obtain new where
      "products (foldl row_step init_state (drop (i + 1) rows)) = products init_state @ new"
      "\<forall>p \<in> set new. \<exists>row \<in> set (drop (i + 1) rows). emitted_from row p"
      using foldl_row_step_products by blast
    ultimately have "\<forall>p \<in> set ps. \<exists>row \<in> set (drop (i + 1) rows). emitted_from row p"
      by (simp add: init_state_def)
    then have "\<forall>p \<in> set ps. \<exists>row \<in> set rows. emitted_from row p"
      by (meson in_set_dropD)
    with Inr show ?thesis by blast
  qed
qed

lemma row_step_no_sku:
  "length row < 2 \<or> py_strip (row ! 1) = [] \<Longrightarrow> products (row_step st row) = products st"
  by (auto simp: row_step_def text_at_def simp del: One_nat_def)

lemma foldl_row_step_grows:
  "\<exists>new. products (foldl row_step st rows) = products st @ new"
  using foldl_row_step_products [of st rows] by blast

lemma row_step_category_row:
  assumes "2 \<le> length row" "py_strip (row ! 0) \<noteq> []" "py_strip (row ! 1) = []"
  shows "row_step st row =
     st\<lparr>current_category := py_strip (replace_newline (py_strip (row ! 0))),
        current_subcategory := []\<rparr>"
proof -
  from assms obtain a b cs where "row = a # b # cs"
    by (cases row; cases "tl row") auto
  with assms show ?thesis
    by (simp add: row_step_def text_at_def)
qed

lemma row_step_sub_product_row:
  assumes "2 \<le> length row" "py_strip (row ! 0) \<noteq> []" "py_strip (row ! 1) \<noteq> []"
  shows "row_step st row =
     st\<lparr>current_subcategory := py_strip (replace_newline (py_strip (row ! 0))),
        products := products st @
          [row_product (st\<lparr>current_subcategory :=
              py_strip (replace_newline (py_strip (row ! 0)))\<rparr>) row]\<rparr>"
proof -
  from assms obtain a b cs where "row = a # b # cs"
    by (cases row; cases "tl row") auto
  with assms show ?thesis
    by (simp add: row_step_def text_at_def)
qed

lemma row_step_product_row:
  assumes "2 \<le> length row" "py_strip (row ! 0) = []" "py_strip (row ! 1) \<noteq> []"
  shows "row_step st row = st\<lparr>products := products st @ [row_product st row]\<rparr>"
proof -
  from assms obtain a b cs where "row = a # b # cs"
    by (cases row; cases "tl row") auto
  with assms show ?thesis
    by (simp add: row_step_def text_at_def)
qed

subsection \<open>Quantities, links and the run\<close>

lemma set_strip_subset: "set (rev (dropWhile P (rev (dropWhile P s)))) \<subseteq> set s"
proof -
  have "set (dropWhile P (rev (dropWhile P s))) \<subseteq> set (rev (dropWhile P s))"
    by (rule set_dropWhileD [THEN subsetI])
  also have "\<dots> \<subseteq> set s"
    by (auto dest: set_dropWhileD)
  finally show ?thesis by simp
qed

lemma py_int_negative:
  assumes "py_int s = Inr n" "n < 0"
  shows "CHR ''-'' \<in> set s"
proof -
  define t where "t = rev (dropWhile int_isspace (rev (dropWhile int_isspace s)))"
  from assms have "case t of [] \<Rightarrow> False | c # _ \<Rightarrow> c = CHR ''-''"
    by (auto simp: py_int_def Let_def t_def split: option.splits if_splits)
  then have "CHR ''-'' \<in> set t" by (cases t) auto
  then show ?thesis using set_strip_subset [of int_isspace s] by (auto simp: t_def)
qed

lemma quantity_at_negative:
  assumes "quantity_at row i < 0"
  shows "i < length row \<and> CHR ''-'' \<in> set (row ! i)"
proof -
  from assms have i: "i < length row"
    by (simp add: quantity_at_def split: if_splits)
  with assms obtain n where "py_int (re_sub_comma_space (row ! i)) = Inr n" "n < 0"
    by (auto simp: quantity_at_def split: sum.splits)
  then have "CHR ''-'' \<in> set (re_sub_comma_space (row ! i))" by (rule py_int_negative)
  with i show ?thesis by (simp add: re_sub_comma_space_def)
qed

lemma url_at_shape: "url_at row = [] \<or> prefix ''http'' (url_at row)"
  by (simp add: url_at_def)

lemma py_strip_na: "py_strip ''#N/A'' = ''#N/A''"
  by (simp add: py_strip_def py_isspace_def)

lemma py_str_zero: "py_str 0 = Inr ''0''"
  by (simp add: py_str_def digits_of.simps [of 0] digit_char_def max_str_digits_def char_of_eq_iff)

lemma main_no_products:
  assumes "content \<noteq> []" "parse_clearance_csv content out2 = Inr ([], out3)"
    "out2 = [''Starting clearance update at '' @ t0, ''Fetching clearance data (gid=0)...'']"
  shows "main (Body content) t0 t1 t2 =
     Inr \<lparr>exit_status = 0,
          stdout = out3 @ [''Parsed 0 clearance products'', ''Wrote clearance_data.json'',
                           ''Update complete!''],
          written = Some \<lparr>updated_at = t1, updated_at_pacific = t2,
                          tabs_clearance = \<lparr>tab_name = ''Clearance Stock'',
                                             tab_products = [], tab_count = 0\<rparr>\<rparr>\<rparr>"
  using assms
  by (simp add: main_def fetch_sheet_csv_def GID_def bindE_def py_str_zero Let_def)

subsection \<open>Evaluation on example sheets\<close>

lemmas csv_eval = csv_rows_def readlines_def feed_line_def parse_process_char_def start_field_def
  parse_add_char_def parse_save_field_def parse_reset_def field_limit_def is_crnl_def bindE_def

lemmas row_eval = is_header_row_def py_in_def py_index_def process_row_def first_col_of_def
  sku_col_of_def py_strip_def replace_newline_def make_product_def spec_url_of_def text_cell_def
  qty_cell_def parse_int_eq map_category_def CATEGORY_MAP_def init_state_def

text \<open>
  The reader on line ends of two characters, on a quoted field with a line feed and a
  doubled quote inside, and on an empty line, which gives a row without cells.
\<close>

lemma csv_rows_examples:
  "csv_rows (''a,b'' @ [CHR 0x0D, CHR 0x0A] @ ''c,d'' @ [CHR 0x0D, CHR 0x0A]) =
     Inr [[''a'', ''b''], [''c'', ''d'']]"
  "csv_rows ([CHR 0x22] @ ''Area\<newline>Li'' @ [CHR 0x22, CHR 0x22] @ ''ght'' @ [CHR 0x22] @
       '',x\<newline>'') =
     Inr [[''Area\<newline>Li'' @ [CHR 0x22] @ ''ght'', ''x'']]"
  "csv_rows ''a\<newline>\<newline>b'' = Inr [[''a''], [], [''b'']]"
  by (simp_all add: csv_eval)

lemma sheet_rows:
  "csv_rows ''Category,Item# / SKU,Description\<newline>Area Lights,,\<newline>,AL2-100,Area light\<newline>'' =
     Inr [[''Category'', ''Item# / SKU'', ''Description''], [''Area Lights'', [], []],
          [[], ''AL2-100'', ''Area light'']]"
  by (simp add: csv_eval)

lemma sheetA_rows:
  "csv_rows ''Category,Item#\<newline>Area Lights,\<newline>Sub A,AL2-100,Light,100W,7,2,x,,-5,15,note,#N/A\<newline>,AL2-200,B,50W,4,0,12,3,9,28,n, http://x \<newline>'' =
     Inr [[''Category'', ''Item#''], [''Area Lights'', []],
          [''Sub A'', ''AL2-100'', ''Light'', ''100W'', ''7'', ''2'', ''x'', [], ''-5'', ''15'',
           ''note'', ''#N/A''],
          [[], ''AL2-200'', ''B'', ''50W'', ''4'', ''0'', ''12'', ''3'', ''9'', ''28'', ''n'',
           '' http://x '']]"
  by (simp add: csv_eval)

lemma sheetA_products:
  "parse_clearance_csv ''Category,Item#\<newline>Area Lights,\<newline>Sub A,AL2-100,Light,100W,7,2,x,,-5,15,note,#N/A\<newline>,AL2-200,B,50W,4,0,12,3,9,28,n, http://x \<newline>'' [] =
     Inr ([\<lparr>sku = ''AL2-100'', description = ''Light'', wattage = ''100W'',
            category = ''Area Light'', subcategory = ''Sub A'', ontario = 7, louisville = 2,
            phoenix = 0, dallas = 0, chicago = - 5, total = 15, notes' = ''note'',
            spec_url = []\<rparr>,
           \<lparr>sku = ''AL2-200'', description = ''B'', wattage = ''50W'',
            category = ''Area Light'', subcategory = ''Sub A'', ontario = 4, louisville = 0,
            phoenix = 12, dallas = 3, chicago = 9, total = 28, notes' = ''n'',
            spec_url = ''http://x''\<rparr>], [])"
  by (simp add: parse_clearance_csv_def sheetA_rows row_eval int_eval str_eval py_isspace_def
      bindE_def)

subsection \<open>Category rows\<close>

text \<open>
  Claim C2. A category header row (at least two cells, the first one not empty after
  trimming, the second one empty after trimming) sets \<^verbatim>\<open>current_category\<close> to the
  trimmed first cell with every line feed replaced by one space and trimmed again, sets
  \<^verbatim>\<open>current_subcategory\<close> to the empty string and adds no product. Consequently, when
  the rows of the text are rows without the marker \<^verbatim>\<open>Item#\<close>, then the header row,
  then a row with the label \<^verbatim>\<open>Area Lights\<close> and no SKU, then a row with no label and
  the SKU \<^verbatim>\<open>AL2-100\<close>, the first product returned has this SKU, the category
  \<^verbatim>\<open>Area Light\<close> and the empty subcategory.
\<close>

theorem category_row_sets_category:
  "(\<forall>st row. 2 \<le> length row \<and> py_strip (row ! 0) \<noteq> [] \<and> py_strip (row ! 1) = []
      \<longrightarrow> process_row st row =
            Inr (st\<lparr>current_category := py_strip (replace_newline (py_strip (row ! 0))),
                    current_subcategory := []\<rparr>)) \<and>
   (\<forall>content out pre hdr c1 cs f s fs rest.
      csv_rows content =
        Inr (pre @ hdr # (''Area Lights'' # c1 # cs) # (f # s # fs) # rest) \<and>
      (\<forall>r \<in> set pre. \<not> (1 < length r \<and> sublist ''Item#'' (r ! 1))) \<and>
      1 < length hdr \<and> sublist ''Item#'' (hdr ! 1) \<and>
      py_strip c1 = [] \<and> py_strip f = [] \<and> py_strip s = ''AL2-100''
      \<longrightarrow> (\<exists>p ps. parse_clearance_csv content out = Inr (p # ps, out) \<and>
                  sku p = ''AL2-100'' \<and> category p = ''Area Light'' \<and> subcategory p = []))"
proof (intro conjI allI impI)
  fix st row
  assume "2 \<le> length row \<and> py_strip (row ! 0) \<noteq> [] \<and> py_strip (row ! 1) = []"
  then show "process_row st row =
      Inr (st\<lparr>current_category := py_strip (replace_newline (py_strip (row ! 0))),
              current_subcategory := []\<rparr>)"
    by (simp add: process_row_eq row_step_category_row)
next
  fix content :: string and out :: "string list" and pre rest :: "string list list"
    and hdr cs fs :: "string list" and c1 f s :: string
  let ?cat = "''Area Lights'' # c1 # cs" and ?prod = "f # s # fs"
  assume a: "csv_rows content = Inr (pre @ hdr # ?cat # ?prod # rest) \<and>
      (\<forall>r \<in> set pre. \<not> (1 < length r \<and> sublist ''Item#'' (r ! 1))) \<and>
      1 < length hdr \<and> sublist ''Item#'' (hdr ! 1) \<and>
      py_strip c1 = [] \<and> py_strip f = [] \<and> py_strip s = ''AL2-100''"
  define st1 where "st1 = row_step init_state ?cat"
  define st2 where "st2 = row_step st1 ?prod"
  have label: "py_strip (replace_newline (py_strip ''Area Lights'')) = ''Area Lights''"
    by (simp add: py_strip_def py_isspace_def replace_newline_def)
  have "py_strip ''Area Lights'' \<noteq> []"
    by (simp add: py_strip_def py_isspace_def)
  with a have st1: "st1 = init_state\<lparr>current_category := ''Area Lights'',
      current_subcategory := []\<rparr>"
    unfolding st1_def by (subst row_step_category_row) (simp_all add: label)
  from a have st2: "st2 = st1\<lparr>products := products st1 @ [row_product st1 ?prod]\<rparr>"
    unfolding st2_def by (subst row_step_product_row) simp_all
  have cat: "map_category ''Area Lights'' = ''Area Light''"
    by (simp add: map_category_def CATEGORY_MAP_def py_in_def str_eval)
  from a have p: "sku (row_product st1 ?prod) = ''AL2-100''"
      "category (row_product st1 ?prod) = ''Area Light''"
      "subcategory (row_product st1 ?prod) = []"
    by (simp_all add: row_product_def text_at_def st1 cat)
  have "parse_clearance_csv content out =
      Inr (products (foldl row_step init_state (?cat # ?prod # rest)), out)"
    using a by (intro parse_with_header) (auto simp: header_marked_def)
  moreover obtain new where "products (foldl row_step st2 rest) = products st2 @ new"
    using foldl_row_step_grows by blast
  ultimately have "parse_clearance_csv content out = Inr (row_product st1 ?prod # new, out)"
    by (simp add: st1_def [symmetric] st2_def [symmetric]) (simp add: st2 st1 init_state_def)
  with p show "\<exists>p ps. parse_clearance_csv content out = Inr (p # ps, out) \<and>
      sku p = ''AL2-100'' \<and> category p = ''Area Light'' \<and> subcategory p = []"
    by blast
qed

text \<open>
  A sheet of this shape, and a category row whose label has a line feed and spaces
  around it.
\<close>

theorem category_row_sets_category_witness:
  "csv_rows ''Category,Item# / SKU,Description\<newline>Area Lights,,\<newline>,AL2-100,Area light\<newline>'' =
     Inr [[''Category'', ''Item# / SKU'', ''Description''], [''Area Lights'', [], []],
          [[], ''AL2-100'', ''Area light'']] \<and>
   (\<exists>p ps. parse_clearance_csv
       ''Category,Item# / SKU,Description\<newline>Area Lights,,\<newline>,AL2-100,Area light\<newline>'' [] =
         Inr (p # ps, []) \<and>
       sku p = ''AL2-100'' \<and> category p = ''Area Light'' \<and> subcategory p = []) \<and>
   process_row \<lparr>products = [], current_category = ''Old'', current_subcategory = ''Sub''\<rparr>
       ['' Area\<newline>Lights '', '' ''] =
     Inr \<lparr>products = [], current_category = ''Area Lights'', current_subcategory = []\<rparr>"
proof -
  let ?sheet = "''Category,Item# / SKU,Description\<newline>Area Lights,,\<newline>,AL2-100,Area light\<newline>''"
  have rows: "csv_rows ?sheet =
     Inr ([] @ [''Category'', ''Item# / SKU'', ''Description''] #
          (''Area Lights'' # [] # [[]]) # ([] # ''AL2-100'' # [''Area light'']) # [])"
    by (simp add: sheet_rows)
  have hdr: "1 < length [''Category'', ''Item# / SKU'', ''Description''] \<and>
      sublist ''Item#'' ([''Category'', ''Item# / SKU'', ''Description''] ! 1)"
    by (simp add: sublist_code)
  have strips: "py_strip [] = [] \<and> py_strip ''AL2-100'' = ''AL2-100''"
    by (simp add: py_strip_def py_isspace_def)
  have scenario: "\<exists>p ps. parse_clearance_csv ?sheet [] = Inr (p # ps, []) \<and>
       sku p = ''AL2-100'' \<and> category p = ''Area Light'' \<and> subcategory p = []"
    using category_row_sets_category [THEN conjunct2, rule_format,
        where content = ?sheet and out = "[]" and pre = "[]"
          and hdr = "[''Category'', ''Item# / SKU'', ''Description'']" and ?c1.0 = "[]"
          and cs = "[[]]" and f = "[]" and s = "''AL2-100''" and fs = "[''Area light'']"
          and rest = "[]"]
      rows hdr strips by simp
  have cells: "2 \<le> length ['' Area\<newline>Lights '', '' ''] \<and>
      py_strip (['' Area\<newline>Lights '', '' ''] ! 0) \<noteq> [] \<and>
      py_strip (['' Area\<newline>Lights '', '' ''] ! 1) = []"
    by (simp add: py_strip_def py_isspace_def)
  have "process_row \<lparr>products = [], current_category = ''Old'', current_subcategory = ''Sub''\<rparr>
       ['' Area\<newline>Lights '', '' ''] =
     Inr (\<lparr>products = [], current_category = ''Old'', current_subcategory = ''Sub''\<rparr>
            \<lparr>current_category :=
               py_strip (replace_newline (py_strip (['' Area\<newline>Lights '', '' ''] ! 0))),
             current_subcategory := []\<rparr>)"
    using category_row_sets_category [THEN conjunct1, rule_format, OF cells] .
  then have step: "process_row
       \<lparr>products = [], current_category = ''Old'', current_subcategory = ''Sub''\<rparr>
       ['' Area\<newline>Lights '', '' ''] =
     Inr \<lparr>products = [], current_category = ''Area Lights'', current_subcategory = []\<rparr>"
    by (simp add: py_strip_def py_isspace_def replace_newline_def)
  from sheet_rows scenario step show ?thesis by blast
qed

subsection \<open>Subcategory rows\<close>

text \<open>
  Claim C3 says that in every CSV input a row with a label and a SKU, followed at once
  by a row with no label and a SKU, gives two products. Rows give products only after
  the header row: in a text without a header row the two rows give nothing, and neither
  do two such rows that stand before the header row.
\<close>

theorem rows_outside_header_counterexample:
  "csv_rows ''Sub A,S1\<newline>,S2'' = Inr [[''Sub A'', ''S1''], [[], ''S2'']] \<and>
   py_strip ''Sub A'' = ''Sub A'' \<and> py_strip ''S1'' = ''S1'' \<and>
   py_strip [] = [] \<and> py_strip ''S2'' = ''S2'' \<and>
   parse_clearance_csv ''Sub A,S1\<newline>,S2'' [] = Inr ([], [''Could not find header row'']) \<and>
   csv_rows ''Sub A,S1\<newline>,S2\<newline>Category,Item#'' =
     Inr [[''Sub A'', ''S1''], [[], ''S2''], [''Category'', ''Item#'']] \<and>
   parse_clearance_csv ''Sub A,S1\<newline>,S2\<newline>Category,Item#'' [] = Inr ([], [])"
proof -
  have r1: "csv_rows ''Sub A,S1\<newline>,S2'' = Inr [[''Sub A'', ''S1''], [[], ''S2'']]"
    by (simp add: csv_eval)
  have s: "py_strip ''Sub A'' = ''Sub A'' \<and> py_strip ''S1'' = ''S1'' \<and>
      py_strip [] = [] \<and> py_strip ''S2'' = ''S2''"
    by (simp add: py_strip_def py_isspace_def)
  have p1: "parse_clearance_csv ''Sub A,S1\<newline>,S2'' [] =
      Inr ([], [''Could not find header row''])"
    by (simp add: parse_clearance_csv_def r1 row_eval sublist_code bindE_def)
  have r2: "csv_rows ''Sub A,S1\<newline>,S2\<newline>Category,Item#'' =
      Inr [[''Sub A'', ''S1''], [[], ''S2''], [''Category'', ''Item#'']]"
    by (simp add: csv_eval)
  have p2: "parse_clearance_csv ''Sub A,S1\<newline>,S2\<newline>Category,Item#'' [] = Inr ([], [])"
    by (simp add: parse_clearance_csv_def r2 row_eval sublist_code bindE_def)
  from r1 s p1 r2 p2 show ?thesis by (intro conjI) simp_all
qed

text \<open>
  Claim C3, amended. When, among the rows after the header row, a row with a label and a
  SKU (both not empty after trimming) is followed at once by a row with no label and a
  SKU, both rows give a product: the result is the products of the rows before the two,
  then the product of the first row, then the product of the second, then the rest. Both
  products have the same subcategory, the label of the first row, trimmed, with line
  feeds replaced by spaces, and trimmed again.
\<close>

theorem subcategory_carried_to_next_row:
  assumes "csv_rows content = Inr (pre @ hdr # mid @ r1 # r2 # rest)"
    and "\<forall>r \<in> set pre. \<not> (1 < length r \<and> sublist ''Item#'' (r ! 1))"
    and "1 < length hdr \<and> sublist ''Item#'' (hdr ! 1)"
    and "2 \<le> length r1 \<and> py_strip (r1 ! 0) \<noteq> [] \<and> py_strip (r1 ! 1) \<noteq> []"
    and "2 \<le> length r2 \<and> py_strip (r2 ! 0) = [] \<and> py_strip (r2 ! 1) \<noteq> []"
  shows "\<exists>st p1 p2 ps.
           process_rows init_state mid = Inr st \<and>
           parse_clearance_csv content out = Inr (products st @ p1 # p2 # ps, out) \<and>
           sku p1 = py_strip (r1 ! 1) \<and> sku p2 = py_strip (r2 ! 1) \<and>
           subcategory p1 = py_strip (replace_newline (py_strip (r1 ! 0))) \<and>
           subcategory p2 = subcategory p1"
proof -
  define st where "st = foldl row_step init_state mid"
  define sub where "sub = py_strip (replace_newline (py_strip (r1 ! 0)))"
  define st1 where "st1 = row_step st r1"
  define st2 where "st2 = row_step st1 r2"
  define p1 where "p1 = row_product (st\<lparr>current_subcategory := sub\<rparr>) r1"
  define p2 where "p2 = row_product st1 r2"
  from assms(4) have st1: "st1 = st\<lparr>current_subcategory := sub, products := products st @ [p1]\<rparr>"
    unfolding st1_def p1_def sub_def by (intro row_step_sub_product_row) simp_all
  from assms(5) have st2: "st2 = st1\<lparr>products := products st1 @ [p2]\<rparr>"
    unfolding st2_def p2_def by (intro row_step_product_row) simp_all
  obtain new where new: "products (foldl row_step st2 rest) = products st2 @ new"
    using foldl_row_step_grows by blast
  have "parse_clearance_csv content out =
      Inr (products (foldl row_step init_state (mid @ r1 # r2 # rest)), out)"
    using assms(1,2,3) by (intro parse_with_header) (auto simp: header_marked_def)
  then have "parse_clearance_csv content out = Inr (products (foldl row_step st2 rest), out)"
    by (simp add: st_def st1_def st2_def)
  with new have "parse_clearance_csv content out = Inr (products st @ p1 # p2 # new, out)"
    by (simp add: st2 st1)
  moreover have "process_rows init_state mid = Inr st"
    by (simp add: process_rows_eq st_def)
  moreover from assms(4) have "sku p1 = py_strip (r1 ! 1)" "subcategory p1 = sub"
    by (simp_all add: p1_def row_product_def text_at_def)
  moreover from assms(5) have "sku p2 = py_strip (r2 ! 1)" "subcategory p2 = sub"
    by (simp_all add: p2_def row_product_def text_at_def st1)
  ultimately have "process_rows init_state mid = Inr st \<and>
      parse_clearance_csv content out = Inr (products st @ p1 # p2 # new, out) \<and>
      sku p1 = py_strip (r1 ! 1) \<and> sku p2 = py_strip (r2 ! 1) \<and>
      subcategory p1 = py_strip (replace_newline (py_strip (r1 ! 0))) \<and>
      subcategory p2 = subcategory p1"
    by (simp add: sub_def)
  then show ?thesis by blast
qed

text \<open>
  A sheet with a category row between the header row and the two rows.
\<close>

theorem subcategory_carried_to_next_row_witness:
  "csv_rows ''Category,Item#\<newline>Area Lights,\<newline>Sub A,S1\<newline>,S2'' =
     Inr [[''Category'', ''Item#''], [''Area Lights'', []], [''Sub A'', ''S1''], [[], ''S2'']] \<and>
   (\<exists>p1 p2 ps.
      parse_clearance_csv ''Category,Item#\<newline>Area Lights,\<newline>Sub A,S1\<newline>,S2'' [] =
        Inr (p1 # p2 # ps, []) \<and>
      sku p1 = ''S1'' \<and> sku p2 = ''S2'' \<and>
      subcategory p1 = ''Sub A'' \<and> subcategory p2 = ''Sub A'')"
proof -
  let ?sheet = "''Category,Item#\<newline>Area Lights,\<newline>Sub A,S1\<newline>,S2''"
  have rows: "csv_rows ?sheet =
     Inr [[''Category'', ''Item#''], [''Area Lights'', []], [''Sub A'', ''S1''], [[], ''S2'']]"
    by (simp add: csv_eval)
  then have split: "csv_rows ?sheet =
     Inr ([] @ [''Category'', ''Item#''] # [[''Area Lights'', []]] @
          [''Sub A'', ''S1''] # [[], ''S2''] # [])"
    by simp
  have pre: "\<forall>r \<in> set []. \<not> (1 < length r \<and> sublist ''Item#'' (r ! 1))"
    by simp
  have hdr: "1 < length [''Category'', ''Item#''] \<and> sublist ''Item#'' ([''Category'', ''Item#''] ! 1)"
    by (simp add: sublist_code)
  have r1: "2 \<le> length [''Sub A'', ''S1''] \<and> py_strip ([''Sub A'', ''S1''] ! 0) \<noteq> [] \<and>
      py_strip ([''Sub A'', ''S1''] ! 1) \<noteq> []"
    by (simp add: py_strip_def py_isspace_def)
  have r2: "2 \<le> length [[], ''S2''] \<and> py_strip ([[], ''S2''] ! 0) = [] \<and>
      py_strip ([[], ''S2''] ! 1) \<noteq> []"
    by (simp add: py_strip_def py_isspace_def)
  obtain st p1 p2 ps where c:
      "process_rows init_state [[''Area Lights'', []]] = Inr st"
      "parse_clearance_csv ?sheet [] = Inr (products st @ p1 # p2 # ps, [])"
      "sku p1 = py_strip ([''Sub A'', ''S1''] ! 1)" "sku p2 = py_strip ([[], ''S2''] ! 1)"
      "subcategory p1 = py_strip (replace_newline (py_strip ([''Sub A'', ''S1''] ! 0)))"
      "subcategory p2 = subcategory p1"
    using subcategory_carried_to_next_row [OF split pre hdr r1 r2, of "[]"] by blast
  from c(1) have "products st = []"
    by (auto simp: row_eval py_isspace_def bindE_def)
  with c have "parse_clearance_csv ?sheet [] = Inr (p1 # p2 # ps, []) \<and>
      sku p1 = ''S1'' \<and> sku p2 = ''S2'' \<and>
      subcategory p1 = ''Sub A'' \<and> subcategory p2 = ''Sub A''"
    by (simp add: py_strip_def py_isspace_def replace_newline_def)
  with rows show ?thesis by blast
qed

subsection \<open>Quantities\<close>

text \<open>
  Claim C5 says that the five location quantities and the total of every product are
  not negative. \<^verbatim>\<open>int\<close> accepts a sign, and \<^verbatim>\<open>parse_int\<close> returns what \<^verbatim>\<open>int\<close>
  returns: a cell \<^verbatim>\<open>-5\<close> in column 4 gives a product with \<^verbatim>\<open>ontario = -5\<close>.
\<close>

theorem negative_quantity_counterexample:
  "parse_clearance_csv ''Category,Item#\<newline>,S1,d,w,-5'' [] =
     Inr ([\<lparr>sku = ''S1'', description = ''d'', wattage = ''w'', category = [],
            subcategory = [], ontario = - 5, louisville = 0, phoenix = 0, dallas = 0,
            chicago = 0, total = 0, notes' = [], spec_url = []\<rparr>], []) \<and>
   ontario \<lparr>sku = ''S1'', description = ''d'', wattage = ''w'', category = [],
            subcategory = [], ontario = - 5, louisville = 0, phoenix = 0, dallas = 0,
            chicago = 0, total = 0, notes' = [], spec_url = []\<rparr> < 0"
proof -
  have "csv_rows ''Category,Item#\<newline>,S1,d,w,-5'' =
      Inr [[''Category'', ''Item#''], [[], ''S1'', ''d'', ''w'', ''-5'']]"
    by (simp add: csv_eval)
  then show ?thesis
    by (simp add: parse_clearance_csv_def row_eval int_eval str_eval py_isspace_def bindE_def)
qed

text \<open>
  Claim C5, amended. Every product returned is made from a row of the text, and each of
  its five location quantities and its total is the integer that \<^verbatim>\<open>parse_int\<close> reads
  in the cell of its column (4 to 9) of that row: 0 when the row has no such column, 0
  when \<^verbatim>\<open>int\<close> fails on the cell without its commas and whitespace, and negative
  only when the cell contains a minus sign.
\<close>

theorem quantities_from_cells:
  assumes "parse_clearance_csv content out = Inr (ps, out')" and "p \<in> set ps"
  shows "\<exists>rows row. csv_rows content = Inr rows \<and> row \<in> set rows \<and>
           sku p = text_at row 1 \<and>
           ontario p = quantity_at row 4 \<and> louisville p = quantity_at row 5 \<and>
           phoenix p = quantity_at row 6 \<and> dallas p = quantity_at row 7 \<and>
           chicago p = quantity_at row 8 \<and> total p = quantity_at row 9 \<and>
           (\<forall>i. quantity_at row i < 0 \<longrightarrow> i < length row \<and> CHR ''-'' \<in> set (row ! i)) \<and>
           (\<forall>i. length row \<le> i \<longrightarrow> quantity_at row i = 0)"
proof -
  from assms obtain rows row where r: "csv_rows content = Inr rows" "row \<in> set rows"
      "emitted_from row p"
    using parse_products by blast
  have "\<forall>i. quantity_at row i < 0 \<longrightarrow> i < length row \<and> CHR ''-'' \<in> set (row ! i)"
    using quantity_at_negative by blast
  moreover have "\<forall>i. length row \<le> i \<longrightarrow> quantity_at row i = 0"
    by (simp add: quantity_at_def)
  ultimately show ?thesis using r unfolding emitted_from_def by blast
qed

text \<open>
  A sheet whose first product row has a cell that is not a number, an empty cell and a
  negative cell.
\<close>

theorem quantities_from_cells_witness:
  "parse_clearance_csv ''Category,Item#\<newline>Area Lights,\<newline>Sub A,AL2-100,Light,100W,7,2,x,,-5,15,note,#N/A\<newline>,AL2-200,B,50W,4,0,12,3,9,28,n, http://x \<newline>'' [] =
     Inr ([\<lparr>sku = ''AL2-100'', description = ''Light'', wattage = ''100W'',
            category = ''Area Light'', subcategory = ''Sub A'', ontario = 7, louisville = 2,
            phoenix = 0, dallas = 0, chicago = - 5, total = 15, notes' = ''note'',
            spec_url = []\<rparr>,
           \<lparr>sku = ''AL2-200'', description = ''B'', wattage = ''50W'',
            category = ''Area Light'', subcategory = ''Sub A'', ontario = 4, louisville = 0,
            phoenix = 12, dallas = 3, chicago = 9, total = 28, notes' = ''n'',
            spec_url = ''http://x''\<rparr>], []) \<and>
   (\<exists>rows row.
      csv_rows ''Category,Item#\<newline>Area Lights,\<newline>Sub A,AL2-100,Light,100W,7,2,x,,-5,15,note,#N/A\<newline>,AL2-200,B,50W,4,0,12,3,9,28,n, http://x \<newline>'' =
        Inr rows \<and> row \<in> set rows \<and> text_at row 1 = ''AL2-100'' \<and>
      quantity_at row 4 = 7 \<and> quantity_at row 5 = 2 \<and> quantity_at row 6 = 0 \<and>
      quantity_at row 7 = 0 \<and> quantity_at row 8 = - 5 \<and> quantity_at row 9 = 15 \<and>
      CHR ''-'' \<in> set (row ! 8))"
proof -
  let ?sheet = "''Category,Item#\<newline>Area Lights,\<newline>Sub A,AL2-100,Light,100W,7,2,x,,-5,15,note,#N/A\<newline>,AL2-200,B,50W,4,0,12,3,9,28,n, http://x \<newline>''"
  let ?p = "\<lparr>sku = ''AL2-100'', description = ''Light'', wattage = ''100W'',
            category = ''Area Light'', subcategory = ''Sub A'', ontario = 7, louisville = 2,
            phoenix = 0, dallas = 0, chicago = - 5, total = 15, notes' = ''note'',
            spec_url = []\<rparr>"
  let ?q = "\<lparr>sku = ''AL2-200'', description = ''B'', wattage = ''50W'',
            category = ''Area Light'', subcategory = ''Sub A'', ontario = 4, louisville = 0,
            phoenix = 12, dallas = 3, chicago = 9, total = 28, notes' = ''n'',
            spec_url = ''http://x''\<rparr>"
  have parse: "parse_clearance_csv ?sheet [] = Inr ([?p, ?q], [])"
    by (rule sheetA_products)
  have mem: "?p \<in> set [?p, ?q]" by simp
  obtain rows row where r: "csv_rows ?sheet = Inr rows" "row \<in> set rows"
      "sku ?p = text_at row 1"
      "ontario ?p = quantity_at row 4" "louisville ?p = quantity_at row 5"
      "phoenix ?p = quantity_at row 6" "dallas ?p = quantity_at row 7"
      "chicago ?p = quantity_at row 8" "total ?p = quantity_at row 9"
      "\<forall>i. quantity_at row i < 0 \<longrightarrow> i < length row \<and> CHR ''-'' \<in> set (row ! i)"
    using quantities_from_cells [OF parse mem] by blast
  from r(8) have "quantity_at row 8 < 0" by simp
  with r(10) have "CHR ''-'' \<in> set (row ! 8)" by blast
  with r have "csv_rows ?sheet = Inr rows \<and> row \<in> set rows \<and> text_at row 1 = ''AL2-100'' \<and>
      quantity_at row 4 = 7 \<and> quantity_at row 5 = 2 \<and> quantity_at row 6 = 0 \<and>
      quantity_at row 7 = 0 \<and> quantity_at row 8 = - 5 \<and> quantity_at row 9 = 15 \<and>
      CHR ''-'' \<in> set (row ! 8)"
    by simp
  with parse show ?thesis by blast
qed

subsection \<open>Links to specification sheets\<close>

text \<open>
  Claim C6. For every product returned, \<^verbatim>\<open>spec_url\<close> is the empty string or begins
  with \<^verbatim>\<open>http\<close>. The product is made from a row of the text, and its \<^verbatim>\<open>spec_url\<close>
  is the trimmed cell 11 of that row when the row has a cell 11 whose trimmed text is not
  empty, is not \<^verbatim>\<open>#N/A\<close> and begins with \<^verbatim>\<open>http\<close>; otherwise it is the empty
  string. In particular a row whose cell 11 is \<^verbatim>\<open>#N/A\<close> gives the empty string.
\<close>

theorem spec_url_empty_or_http:
  assumes "parse_clearance_csv content out = Inr (ps, out')" and "p \<in> set ps"
  shows "(spec_url p = [] \<or> prefix ''http'' (spec_url p)) \<and>
         (\<exists>rows row. csv_rows content = Inr rows \<and> row \<in> set rows \<and>
            sku p = py_strip (row ! 1) \<and>
            spec_url p =
              (if 11 < length row \<and> py_strip (row ! 11) \<noteq> [] \<and>
                  py_strip (row ! 11) \<noteq> ''#N/A'' \<and> prefix ''http'' (py_strip (row ! 11))
               then py_strip (row ! 11) else []) \<and>
            (11 < length row \<and> row ! 11 = ''#N/A'' \<longrightarrow> spec_url p = []))"
proof -
  from assms obtain rows row where r: "csv_rows content = Inr rows" "row \<in> set rows"
      "emitted_from row p"
    using parse_products by blast
  from r(3) have u: "spec_url p = url_at row" and s: "sku p = py_strip (row ! 1)"
    by (simp_all add: emitted_from_def text_at_def)
  have "spec_url p = [] \<or> prefix ''http'' (spec_url p)"
    using url_at_shape [of row] by (simp add: u)
  moreover have "11 < length row \<and> row ! 11 = ''#N/A'' \<longrightarrow> spec_url p = []"
    by (simp add: u url_at_def py_strip_na)
  moreover have "spec_url p =
      (if 11 < length row \<and> py_strip (row ! 11) \<noteq> [] \<and>
          py_strip (row ! 11) \<noteq> ''#N/A'' \<and> prefix ''http'' (py_strip (row ! 11))
       then py_strip (row ! 11) else [])"
    by (simp add: u url_at_def)
  ultimately show ?thesis using r(1,2) s by blast
qed

text \<open>
  The second product of the sheet has a link with spaces around it.
\<close>

theorem spec_url_empty_or_http_witness:
  "parse_clearance_csv ''Category,Item#\<newline>Area Lights,\<newline>Sub A,AL2-100,Light,100W,7,2,x,,-5,15,note,#N/A\<newline>,AL2-200,B,50W,4,0,12,3,9,28,n, http://x \<newline>'' [] =
     Inr ([\<lparr>sku = ''AL2-100'', description = ''Light'', wattage = ''100W'',
            category = ''Area Light'', subcategory = ''Sub A'', ontario = 7, louisville = 2,
            phoenix = 0, dallas = 0, chicago = - 5, total = 15, notes' = ''note'',
            spec_url = []\<rparr>,
           \<lparr>sku = ''AL2-200'', description = ''B'', wattage = ''50W'',
            category = ''Area Light'', subcategory = ''Sub A'', ontario = 4, louisville = 0,
            phoenix = 12, dallas = 3, chicago = 9, total = 28, notes' = ''n'',
            spec_url = ''http://x''\<rparr>], []) \<and>
   (\<exists>rows row.
      csv_rows ''Category,Item#\<newline>Area Lights,\<newline>Sub A,AL2-100,Light,100W,7,2,x,,-5,15,note,#N/A\<newline>,AL2-200,B,50W,4,0,12,3,9,28,n, http://x \<newline>'' =
        Inr rows \<and> row \<in> set rows \<and> py_strip (row ! 1) = ''AL2-200'' \<and>
      (if 11 < length row \<and> py_strip (row ! 11) \<noteq> [] \<and>
          py_strip (row ! 11) \<noteq> ''#N/A'' \<and> prefix ''http'' (py_strip (row ! 11))
       then py_strip (row ! 11) else []) = ''http://x'') \<and>
   prefix ''http'' ''http://x''"
proof -
  let ?sheet = "''Category,Item#\<newline>Area Lights,\<newline>Sub A,AL2-100,Light,100W,7,2,x,,-5,15,note,#N/A\<newline>,AL2-200,B,50W,4,0,12,3,9,28,n, http://x \<newline>''"
  let ?p = "\<lparr>sku = ''AL2-100'', description = ''Light'', wattage = ''100W'',
            category = ''Area Light'', subcategory = ''Sub A'', ontario = 7, louisville = 2,
            phoenix = 0, dallas = 0, chicago = - 5, total = 15, notes' = ''note'',
            spec_url = []\<rparr>"
  let ?q = "\<lparr>sku = ''AL2-200'', description = ''B'', wattage = ''50W'',
            category = ''Area Light'', subcategory = ''Sub A'', ontario = 4, louisville = 0,
            phoenix = 12, dallas = 3, chicago = 9, total = 28, notes' = ''n'',
            spec_url = ''http://x''\<rparr>"
  have parse: "parse_clearance_csv ?sheet [] = Inr ([?p, ?q], [])"
    by (rule sheetA_products)
  have mem: "?q \<in> set [?p, ?q]" by simp
  from spec_url_empty_or_http [OF parse mem]
  have shape: "spec_url ?q = [] \<or> prefix ''http'' (spec_url ?q)"
    and "\<exists>rows row. csv_rows ?sheet = Inr rows \<and> row \<in> set rows \<and>
            sku ?q = py_strip (row ! 1) \<and>
            spec_url ?q =
              (if 11 < length row \<and> py_strip (row ! 11) \<noteq> [] \<and>
                  py_strip (row ! 11) \<noteq> ''#N/A'' \<and> prefix ''http'' (py_strip (row ! 11))
               then py_strip (row ! 11) else []) \<and>
            (11 < length row \<and> row ! 11 = ''#N/A'' \<longrightarrow> spec_url ?q = [])"
    by blast+
  then obtain rows row where r: "csv_rows ?sheet = Inr rows" "row \<in> set rows"
      "sku ?q = py_strip (row ! 1)"
      "spec_url ?q =
         (if 11 < length row \<and> py_strip (row ! 11) \<noteq> [] \<and>
             py_strip (row ! 11) \<noteq> ''#N/A'' \<and> prefix ''http'' (py_strip (row ! 11))
          then py_strip (row ! 11) else [])"
    by blast
  from r(3) have s: "py_strip (row ! 1) = ''AL2-200''" by simp
  from r(4) have u: "(if 11 < length row \<and> py_strip (row ! 11) \<noteq> [] \<and>
          py_strip (row ! 11) \<noteq> ''#N/A'' \<and> prefix ''http'' (py_strip (row ! 11))
       then py_strip (row ! 11) else []) = ''http://x''"
    by simp
  from shape have "prefix ''http'' ''http://x''" by simp
  with parse r(1,2) s u show ?thesis by blast
qed

subsection \<open>A sheet without header row\<close>

text \<open>
  Claim C7 says that an input without a row whose second cell contains \<^verbatim>\<open>Item#\<close>
  still ends with a written document and the status 0. The empty text has no row at all,
  and \<^verbatim>\<open>main\<close> treats it like a failed request (\<^verbatim>\<open>if not csv_content\<close>): it
  writes nothing and returns 1.
\<close>

theorem empty_content_counterexample:
  "csv_rows [] = Inr [] \<and>
   parse_clearance_csv [] [] = Inr ([], [''Could not find header row'']) \<and>
   main (Body []) ''t0'' ''t1'' ''t2'' =
     Inr \<lparr>exit_status = 1,
          stdout = [''Starting clearance update at t0'', ''Fetching clearance data (gid=0)...'',
                    ''Failed to fetch clearance data''],
          written = None\<rparr>"
proof -
  have "csv_rows [] = Inr []" by (simp add: csv_eval)
  moreover from this have "parse_clearance_csv [] [] = Inr ([], [''Could not find header row''])"
    by (simp add: parse_clearance_csv_def bindE_def)
  moreover have "main (Body []) ''t0'' ''t1'' ''t2'' =
     Inr \<lparr>exit_status = 1,
          stdout = [''Starting clearance update at t0'', ''Fetching clearance data (gid=0)...'',
                    ''Failed to fetch clearance data''],
          written = None\<rparr>"
    by (simp add: main_def fetch_sheet_csv_def GID_def)
  ultimately show ?thesis by blast
qed

text \<open>
  Claim C7, amended. When the text fetched is not empty, the CSV reader returns its rows
  and no row has a second cell that contains \<^verbatim>\<open>Item#\<close>, then
  \<^verbatim>\<open>parse_clearance_csv\<close> returns the empty list and prints that the header row was
  not found, and the run writes a document whose clearance tab has no products and the
  count 0, and ends with the status 0.
\<close>

theorem missing_header_degrades:
  assumes "content \<noteq> []" and "csv_rows content = Inr rows"
    and "\<forall>row \<in> set rows. \<not> (1 < length row \<and> sublist ''Item#'' (row ! 1))"
  shows "parse_clearance_csv content out = Inr ([], out @ [''Could not find header row'']) \<and>
         (\<exists>r d. main (Body content) t0 t1 t2 = Inr r \<and> exit_status r = 0 \<and>
            written r = Some d \<and> tab_count (tabs_clearance d) = 0 \<and>
            tab_products (tabs_clearance d) = [] \<and>
            ''Could not find header row'' \<in> set (stdout r))"
proof -
  have p: "parse_clearance_csv content out = Inr ([], out @ [''Could not find header row''])"
    for out
    using assms(2,3) by (intro parse_no_header) (auto simp: header_marked_def)
  define out2 where
    "out2 = [''Starting clearance update at '' @ t0, ''Fetching clearance data (gid=0)...'']"
  have "main (Body content) t0 t1 t2 =
     Inr \<lparr>exit_status = 0,
          stdout = (out2 @ [''Could not find header row'']) @
             [''Parsed 0 clearance products'', ''Wrote clearance_data.json'',
              ''Update complete!''],
          written = Some \<lparr>updated_at = t1, updated_at_pacific = t2,
                          tabs_clearance = \<lparr>tab_name = ''Clearance Stock'',
                                             tab_products = [], tab_count = 0\<rparr>\<rparr>\<rparr>"
    using assms(1) p [of out2] out2_def by (rule main_no_products)
  then show ?thesis using p [of out] by simp
qed

text \<open>
  A sheet whose header has no \<^verbatim>\<open>Item#\<close>.
\<close>

theorem missing_header_degrades_witness:
  "csv_rows ''Category,SKU\<newline>Area Lights,AL2-100'' =
     Inr [[''Category'', ''SKU''], [''Area Lights'', ''AL2-100'']] \<and>
   parse_clearance_csv ''Category,SKU\<newline>Area Lights,AL2-100'' [] =
     Inr ([], [''Could not find header row'']) \<and>
   (\<exists>r d. main (Body ''Category,SKU\<newline>Area Lights,AL2-100'') ''t0'' ''t1'' ''t2'' = Inr r \<and>
      exit_status r = 0 \<and> written r = Some d \<and> tab_count (tabs_clearance d) = 0 \<and>
      tab_products (tabs_clearance d) = [] \<and>
      ''Could not find header row'' \<in> set (stdout r))"
proof -
  let ?sheet = "''Category,SKU\<newline>Area Lights,AL2-100''"
  have ne: "?sheet \<noteq> []" by simp
  have rows: "csv_rows ?sheet = Inr [[''Category'', ''SKU''], [''Area Lights'', ''AL2-100'']]"
    by (simp add: csv_eval)
  have none: "\<forall>row \<in> set [[''Category'', ''SKU''], [''Area Lights'', ''AL2-100'']].
      \<not> (1 < length row \<and> sublist ''Item#'' (row ! 1))"
    by (simp add: sublist_code)
  from missing_header_degrades [OF ne rows none, of "[]" "''t0''" "''t1''" "''t2''"] rows
  show ?thesis by simp
qed

subsection \<open>Products have a SKU\<close>

text \<open>
  Claim C9. Every product in the list that \<^verbatim>\<open>parse_clearance_csv\<close> returns has a
  SKU that is not empty; a row with fewer than two cells, or whose second cell is empty
  after trimming, adds no product.
\<close>

theorem products_have_sku:
  "(\<forall>ps out' p. parse_clearance_csv content out = Inr (ps, out') \<and> p \<in> set ps
      \<longrightarrow> sku p \<noteq> []) \<and>
   (\<forall>st row. length row < 2 \<or> py_strip (row ! 1) = []
      \<longrightarrow> (\<exists>st'. process_row st row = Inr st' \<and> products st' = products st))"
proof (intro conjI allI impI)
  fix ps out' p
  assume a: "parse_clearance_csv content out = Inr (ps, out') \<and> p \<in> set ps"
  then obtain rows where "\<forall>p \<in> set ps. \<exists>row \<in> set rows. emitted_from row p"
    using parse_products by blast
  with a obtain row where "emitted_from row p" by blast
  then show "sku p \<noteq> []" by (simp add: emitted_from_def)
next
  fix st row
  assume "length row < 2 \<or> py_strip (row ! 1) = []"
  then have "products (row_step st row) = products st" by (rule row_step_no_sku)
  then show "\<exists>st'. process_row st row = Inr st' \<and> products st' = products st"
    by (simp add: process_row_eq)
qed

text \<open>
  A sheet with one product, and a category row whose second cell is blank.
\<close>

theorem products_have_sku_witness:
  "parse_clearance_csv ''Category,Item#\<newline>Area Lights,\<newline>,AL2-100'' [] =
     Inr ([\<lparr>sku = ''AL2-100'', description = [], wattage = [], category = ''Area Light'',
            subcategory = [], ontario = 0, louisville = 0, phoenix = 0, dallas = 0,
            chicago = 0, total = 0, notes' = [], spec_url = []\<rparr>], []) \<and>
   ''AL2-100'' \<noteq> [] \<and>
   py_strip ([''Area Lights'', ''  ''] ! 1) = [] \<and>
   (\<exists>st'. process_row init_state [''Area Lights'', ''  ''] = Inr st' \<and>
      products st' = products init_state)"
proof -
  let ?sheet = "''Category,Item#\<newline>Area Lights,\<newline>,AL2-100''"
  let ?p = "\<lparr>sku = ''AL2-100'', description = [], wattage = [], category = ''Area Light'',
            subcategory = [], ontario = 0, louisville = 0, phoenix = 0, dallas = 0,
            chicago = 0, total = 0, notes' = [], spec_url = []\<rparr>"
  have "csv_rows ?sheet =
      Inr [[''Category'', ''Item#''], [''Area Lights'', []], [[], ''AL2-100'']]"
    by (simp add: csv_eval)
  then have parse: "parse_clearance_csv ?sheet [] = Inr ([?p], [])"
    by (simp add: parse_clearance_csv_def row_eval int_eval str_eval py_isspace_def bindE_def)
  have "parse_clearance_csv ?sheet [] = Inr ([?p], []) \<and> ?p \<in> set [?p]"
    using parse by simp
  then have "sku ?p \<noteq> []"
    using products_have_sku [of ?sheet "[]", THEN conjunct1, rule_format] by blast
  then have s: "''AL2-100'' \<noteq> []" by simp
  have e: "py_strip ([''Area Lights'', ''  ''] ! 1) = []"
    by (simp add: py_strip_def py_isspace_def)
  then have "length [''Area Lights'', ''  ''] < 2 \<or> py_strip ([''Area Lights'', ''  ''] ! 1) = []"
    by blast
  then have "\<exists>st'. process_row init_state [''Area Lights'', ''  ''] = Inr st' \<and>
      products st' = products init_state"
    using products_have_sku [of ?sheet "[]", THEN conjunct2, rule_format] by blast
  with parse s e show ?thesis by blast
qed

subsection \<open>Exceptions of \<^verbatim>\<open>parse_clearance_csv\<close>\<close>

text \<open>
  Claim C10 says that \<^verbatim>\<open>parse_clearance_csv\<close> returns a list for every input string
  and raises nothing. The function reads the text with \<^verbatim>\<open>csv.reader\<close> and catches
  nothing: on the text \<^verbatim>\<open>a\<close>, carriage return, \<^verbatim>\<open>b\<close> the reader raises
  \<^verbatim>\<open>_csv.Error\<close> (new-line character seen in unquoted field), and so does the function.
\<close>

theorem carriage_return_counterexample:
  "csv_rows (''a'' @ [CHR 0x0D] @ ''b'') = Inl CsvError \<and>
   parse_clearance_csv (''a'' @ [CHR 0x0D] @ ''b'') [] = Inl CsvError"
proof -
  have "csv_rows (''a'' @ [CHR 0x0D] @ ''b'') = Inl CsvError"
    by (simp add: csv_eval)
  then show ?thesis by (simp add: parse_csv_error)
qed

text \<open>
  Claim C10, amended. For every input string \<^verbatim>\<open>parse_clearance_csv\<close> ends (its
  loops run over the lines of the text and over the rows read), either with a list of
  products or with the error that the CSV reader raised on the text, and with nothing
  else; whenever the reader returns rows, a list of products is returned.
  The loop over the rows never raises: a row with fewer than two cells is skipped, and in
  the product of a row the fields of the columns that the row does not have take their
  defaults, the empty string or 0.
\<close>

theorem parse_raises_only_csv_error:
  "((\<exists>ps out'. parse_clearance_csv content out = Inr (ps, out')) \<or>
    (parse_clearance_csv content out = Inl CsvError \<and> csv_rows content = Inl CsvError)) \<and>
   (\<forall>rows. csv_rows content = Inr rows
      \<longrightarrow> (\<exists>ps out'. parse_clearance_csv content out = Inr (ps, out'))) \<and>
   (\<forall>st rows. \<exists>st'. process_rows st rows = Inr st') \<and>
   (\<forall>st row. length row < 2 \<longrightarrow> process_row st row = Inr st) \<and>
   (\<forall>st row. \<exists>st'. process_row st row = Inr st' \<and>
      (products st' = products st \<or>
       (\<exists>p. products st' = products st @ [p] \<and>
          (length row \<le> 2 \<longrightarrow> description p = []) \<and>
          (length row \<le> 3 \<longrightarrow> wattage p = []) \<and>
          (length row \<le> 4 \<longrightarrow> ontario p = 0) \<and>
          (length row \<le> 5 \<longrightarrow> louisville p = 0) \<and>
          (length row \<le> 6 \<longrightarrow> phoenix p = 0) \<and>
          (length row \<le> 7 \<longrightarrow> dallas p = 0) \<and>
          (length row \<le> 8 \<longrightarrow> chicago p = 0) \<and>
          (length row \<le> 9 \<longrightarrow> total p = 0) \<and>
          (length row \<le> 10 \<longrightarrow> notes' p = []) \<and>
          (length row \<le> 11 \<longrightarrow> spec_url p = []))))"
proof -
  have rows_ok: "\<exists>ps out'. parse_clearance_csv content out = Inr (ps, out')"
    if "csv_rows content = Inr rows" for rows
    using parse_rows_cases [OF that, of out] by blast
  have a: "(\<exists>ps out'. parse_clearance_csv content out = Inr (ps, out')) \<or>
    (parse_clearance_csv content out = Inl CsvError \<and> csv_rows content = Inl CsvError)"
  proof (cases "csv_rows content")
    case (Inl e)
    then have "e = CsvError" by (rule csv_rows_error)
    with Inl show ?thesis by (simp add: parse_csv_error)
  next
    case (Inr rows)
    then show ?thesis using rows_ok by blast
  qed
  have b: "\<forall>st rows. \<exists>st'. process_rows st rows = Inr st'"
    by (simp add: process_rows_eq)
  have c: "\<forall>st row. length row < 2 \<longrightarrow> process_row st row = Inr st"
    by (simp add: process_row_eq row_step_def)
  have d: "\<exists>st'. process_row st row = Inr st' \<and>
      (products st' = products st \<or>
       (\<exists>p. products st' = products st @ [p] \<and>
          (length row \<le> 2 \<longrightarrow> description p = []) \<and>
          (length row \<le> 3 \<longrightarrow> wattage p = []) \<and>
          (length row \<le> 4 \<longrightarrow> ontario p = 0) \<and>
          (length row \<le> 5 \<longrightarrow> louisville p = 0) \<and>
          (length row \<le> 6 \<longrightarrow> phoenix p = 0) \<and>
          (length row \<le> 7 \<longrightarrow> dallas p = 0) \<and>
          (length row \<le> 8 \<longrightarrow> chicago p = 0) \<and>
          (length row \<le> 9 \<longrightarrow> total p = 0) \<and>
          (length row \<le> 10 \<longrightarrow> notes' p = []) \<and>
          (length row \<le> 11 \<longrightarrow> spec_url p = [])))" for st row
  proof -
    from row_step_products [of st row] show ?thesis
    proof
      assume "products (row_step st row) = products st"
      then show ?thesis by (simp add: process_row_eq)
    next
      assume "\<exists>p. products (row_step st row) = products st @ [p] \<and> emitted_from row p"
      then obtain p where p: "products (row_step st row) = products st @ [p]"
          "emitted_from row p" by blast
      from p(2) have "(length row \<le> 2 \<longrightarrow> description p = []) \<and>
          (length row \<le> 3 \<longrightarrow> wattage p = []) \<and>
          (length row \<le> 4 \<longrightarrow> ontario p = 0) \<and>
          (length row \<le> 5 \<longrightarrow> louisville p = 0) \<and>
          (length row \<le> 6 \<longrightarrow> phoenix p = 0) \<and>
          (length row \<le> 7 \<longrightarrow> dallas p = 0) \<and>
          (length row \<le> 8 \<longrightarrow> chicago p = 0) \<and>
          (length row \<le> 9 \<longrightarrow> total p = 0) \<and>
          (length row \<le> 10 \<longrightarrow> notes' p = []) \<and>
          (length row \<le> 11 \<longrightarrow> spec_url p = [])"
        by (simp add: emitted_from_def text_at_def quantity_at_def url_at_def)
      with p(1) show ?thesis by (simp add: process_row_eq)
    qed
  qed
  from a rows_ok b c d show ?thesis by blast
qed

text \<open>
  A sheet with a short row and a product row of two cells.
\<close>

theorem parse_raises_only_csv_error_witness:
  "csv_rows ''Category,Item#\<newline>x\<newline>,S1'' =
     Inr [[''Category'', ''Item#''], [''x''], [[], ''S1'']] \<and>
   (\<exists>ps out'. parse_clearance_csv ''Category,Item#\<newline>x\<newline>,S1'' [] = Inr (ps, out')) \<and>
   process_row init_state [''x''] = Inr init_state \<and>
   (\<exists>p. process_row init_state [[], ''S1''] = Inr (init_state\<lparr>products := [p]\<rparr>) \<and>
      description p = [] \<and> wattage p = [] \<and> ontario p = 0 \<and> louisville p = 0 \<and>
      phoenix p = 0 \<and> dallas p = 0 \<and> chicago p = 0 \<and> total p = 0 \<and> notes' p = [] \<and>
      spec_url p = [])"
proof -
  let ?sheet = "''Category,Item#\<newline>x\<newline>,S1''"
  let ?row = "[[], ''S1'']"
  note th = parse_raises_only_csv_error [of ?sheet "[]"]
  note th_rows = th [THEN conjunct2, THEN conjunct1, rule_format]
  note th_short = th [THEN conjunct2, THEN conjunct2, THEN conjunct2, THEN conjunct1, rule_format]
  note th_row = th [THEN conjunct2, THEN conjunct2, THEN conjunct2, THEN conjunct2,
      THEN spec, THEN spec, of init_state ?row]
  have rows: "csv_rows ?sheet = Inr [[''Category'', ''Item#''], [''x''], [[], ''S1'']]"
    by (simp add: csv_eval)
  then have a: "\<exists>ps out'. parse_clearance_csv ?sheet [] = Inr (ps, out')"
    by (rule th_rows)
  have "length [''x''] < 2" by simp
  then have b: "process_row init_state [''x''] = Inr init_state"
    by (rule th_short)
  have ev: "process_row init_state ?row =
      Inr (init_state\<lparr>products := [row_product init_state ?row]\<rparr>)"
    by (simp add: process_row_eq row_step_def text_at_def py_strip_def py_isspace_def
        init_state_def)
  from th_row obtain st' where st1: "process_row init_state ?row = Inr st'"
    and st2: "products st' = products init_state \<or>
       (\<exists>p. products st' = products init_state @ [p] \<and>
          (length ?row \<le> 2 \<longrightarrow> description p = []) \<and>
          (length ?row \<le> 3 \<longrightarrow> wattage p = []) \<and>
          (length ?row \<le> 4 \<longrightarrow> ontario p = 0) \<and>
          (length ?row \<le> 5 \<longrightarrow> louisville p = 0) \<and>
          (length ?row \<le> 6 \<longrightarrow> phoenix p = 0) \<and>
          (length ?row \<le> 7 \<longrightarrow> dallas p = 0) \<and>
          (length ?row \<le> 8 \<longrightarrow> chicago p = 0) \<and>
          (length ?row \<le> 9 \<longrightarrow> total p = 0) \<and>
          (length ?row \<le> 10 \<longrightarrow> notes' p = []) \<and>
          (length ?row \<le> 11 \<longrightarrow> spec_url p = []))"
    by (elim exE conjE)
  from st1 ev have eq: "st' = init_state\<lparr>products := [row_product init_state ?row]\<rparr>"
    by simp
  then have prods: "products st' = [row_product init_state ?row]"
    by simp
  have init: "products init_state = []"
    by (simp add: init_state_def)
  from st2 obtain p where p: "products st' = products init_state @ [p]"
      "description p = []" "wattage p = []" "ontario p = 0" "louisville p = 0"
      "phoenix p = 0" "dallas p = 0" "chicago p = 0" "total p = 0" "notes' p = []"
      "spec_url p = []"
    unfolding prods init by (elim disjE exE conjE) simp_all
  from p(1) have "p = row_product init_state ?row"
    by (simp add: prods init)
  with ev have "process_row init_state ?row = Inr (init_state\<lparr>products := [p]\<rparr>)"
    by simp
  with p have c: "\<exists>p. process_row init_state ?row = Inr (init_state\<lparr>products := [p]\<rparr>) \<and>
      description p = [] \<and> wattage p = [] \<and> ontario p = 0 \<and> louisville p = 0 \<and>
      phoenix p = 0 \<and> dallas p = 0 \<and> chicago p = 0 \<and> total p = 0 \<and> notes' p = [] \<and>
      spec_url p = []"
    by (intro exI [of _ p] conjI)
  from rows a b c show ?thesis by (intro conjI)
qed

end
